theory Spec2Isabelle
  imports Main "HOL-Library.Sublist"
begin

section \<open>Data model of \<^verbatim>\<open>pkg/blackduck/creater.go\<close>\<close>

text \<open>
  Go \<^verbatim>\<open>error\<close> values. \<open>Platform\<close> is an error handed back by a cluster or library call
  and passed on as it is; every other constructor is one \<^verbatim>\<open>fmt.Errorf\<close> site of the file:
  \<^item> \<open>DeployerUnavailable\<close>: "unable to create the horizon deployer because ..."
  \<^item> \<open>InvalidFlavor\<close>: "invalid flavor type, Expected: Small, Medium, Large (or) X-Large, Actual: ..."
  \<^item> \<open>InitDatabaseFailed\<close>: "<namespace>: error: ..." (line 307)
  \<^item> \<open>PVCLookupFailed\<close>: "unable to get pvc in <namespace> namespace because ..." (line 414)
  \<^item> \<open>PVCTimeout\<close>: "timeout: unable to get pvc <namespace> in <namespace> namespace" (line 425)
  \<^item> \<open>ServiceLookupFailed\<close>: "unable to get service <name> in <namespace> namespace because ..."
  \<^item> \<open>ServiceTimeout\<close>: "timeout: unable to get ip address for the service <name> in <namespace> namespace"
\<close>

datatype error =
    Platform string
  | DeployerUnavailable error
  | InvalidFlavor string
  | InitDatabaseFailed string error
  | PVCLookupFailed string error
  | PVCTimeout string string
  | ServiceLookupFailed string string error
  | ServiceTimeout string string

text \<open>The part of \<^verbatim>\<open>v1.BlackduckSpec\<close> that the file reads.\<close>

record PVCClaim =
  Name :: string

record BlackduckSpec =
  Namespace :: string
  Size :: string
  PersistentStorage :: bool
  PVC :: "PVCClaim list"
  ExternalPostgres :: "string option"
  State :: string
  DbPrototype :: string

text \<open>
  A \<^verbatim>\<open>corev1.Service\<close> as the two address polls read it:
  \<^verbatim>\<open>Status.LoadBalancer.Ingress\<close> and \<^verbatim>\<open>Spec.ClusterIP\<close>.
\<close>

record LoadBalancerIngress =
  IP :: string
  Hostname :: string

record Service =
  Ingress :: "LoadBalancerIngress list"
  ClusterIP :: string

text \<open>
  A horizon deployer is a batch of manifests. Its content is built by code outside this
  file, so a batch is identified by the function that fills it:
  \<^item> \<open>InitBatch\<close>: filled by \<^verbatim>\<open>hc.init\<close> (lines 124-131, "config-maps, secrets and postgres container"),
  \<^item> \<open>ConfigBatch\<close>: the secrets and config maps of \<^verbatim>\<open>getHubConfigDeployer\<close>,
  \<^item> \<open>PostgresBatch\<close>: the replication controller and service of \<^verbatim>\<open>getPostgresDeployer\<close>,
  \<^item> \<open>HubBatch\<close>: filled by \<^verbatim>\<open>AddToDeployer\<close> in \<^verbatim>\<open>getHubDeployer\<close>,
  \<^item> \<open>ExposeBatch\<close>: filled by \<^verbatim>\<open>AddExposeServices\<close>.
\<close>

datatype batch = InitBatch | ConfigBatch | PostgresBatch | HubBatch | ExposeBatch

datatype RouteV1Client = RouteV1Client

text \<open>The fields of \<^verbatim>\<open>Creater\<close> that decide control flow: \<^verbatim>\<open>Config.Namespace\<close> and \<^verbatim>\<open>routeClient\<close> (nil or not).\<close>

record Creater =
  Config_Namespace :: string
  routeClient :: "RouteV1Client option"

section \<open>The cluster and the libraries, as seen from the file\<close>

text \<open>
  Every call that leaves the file is recorded, with its answer, in a trace. Sleeps and
  the error- and info-level log lines are recorded as well (debug lines are not).
\<close>

datatype event =
    EvInit "error option"
  | EvRun batch "error option"
  | EvUndeploy batch "error option"
  | EvGetDefaultPasswords string "string \<times> string \<times> string" "error option"
  | EvAddAnyUID "error option"
  | EvWaitForServiceEndpointReady string string "error option"
  | EvInitDatabase "string \<times> string \<times> string" "error option"
  | EvGetHubDBPassword string "error + string"
  | EvCloneJob string string string string "error option"
  | EvValidatePods string "error option"
  | EvGetPVC string string "error + string"
  | EvCreateRoute string "error + string"
  | EvGetService string string "error + Service"
  | EvGetNamespace string "string option" "error option"
  | EvDeleteNamespace string "error option"
  | EvDeletePersistentVolume string "error option"
  | EvDeleteClusterRoleBinding string "error option"
  | EvSleep nat
  | EvLogError string
  | EvLogInfo string

type_synonym trace = "event list"

text \<open>
  The answers of everything outside the file. A call made when the trace has \<open>t\<close> entries
  gets the answer at time \<open>t\<close>, so an answer may change from one poll to the next.

  \<^item> \<open>NewDeployer\<close> is \<^verbatim>\<open>horizon.NewDeployer(hc.KubeConfig)\<close>: it only builds clients from
    the fixed configuration, so it has one answer (\<open>None\<close>: a deployer).
  \<^item> \<open>GetContainersFlavor\<close> is the flavor table of package \<^verbatim>\<open>containers\<close> (\<open>None\<close>: nil).
  \<^item> \<open>GetDefaultPasswords\<close> returns three strings and an error, as in Go.
  \<^item> \<open>GetNamespace\<close> returns a pointer (\<open>None\<close>: nil; \<open>Some s\<close>: a namespace with status
    \<open>s\<close>) and an error, as in Go: \<^verbatim>\<open>DeleteHub\<close> reads the pointer before it looks at the error.
  \<^item> The other lookups are read after their error check only: an answer is an error or a value.
\<close>

record world =
  NewDeployer :: "error option"
  GetContainersFlavor :: "string \<Rightarrow> string option"
  hc_init :: "nat \<Rightarrow> error option"
  Run :: "nat \<Rightarrow> batch \<Rightarrow> error option"
  Undeploy :: "nat \<Rightarrow> batch \<Rightarrow> error option"
  GetDefaultPasswords :: "nat \<Rightarrow> string \<Rightarrow> (string \<times> string \<times> string) \<times> error option"
  addAnyUIDToServiceAccount :: "nat \<Rightarrow> error option"
  WaitForServiceEndpointReady :: "nat \<Rightarrow> string \<Rightarrow> string \<Rightarrow> error option"
  InitDatabase :: "nat \<Rightarrow> string \<times> string \<times> string \<Rightarrow> error option"
  GetHubDBPassword :: "nat \<Rightarrow> string \<Rightarrow> error + string"
  CloneJob :: "nat \<Rightarrow> string \<Rightarrow> string \<Rightarrow> string \<Rightarrow> string \<Rightarrow> error option"
  ValidatePodsAreRunningInNamespace :: "nat \<Rightarrow> string \<Rightarrow> error option"
  GetPVC :: "nat \<Rightarrow> string \<Rightarrow> string \<Rightarrow> error + string"
  CreateOpenShiftRoutes :: "nat \<Rightarrow> string \<Rightarrow> error + string"
  GetService :: "nat \<Rightarrow> string \<Rightarrow> string \<Rightarrow> error + Service"
  GetNamespace :: "nat \<Rightarrow> string \<Rightarrow> string option \<times> error option"
  DeleteNamespace :: "nat \<Rightarrow> string \<Rightarrow> error option"
  DeletePersistentVolume :: "nat \<Rightarrow> string \<Rightarrow> error option"
  DeleteClusterRoleBinding :: "nat \<Rightarrow> string \<Rightarrow> error option"

section \<open>Helpers of the Go library\<close>

text \<open>
  \<^verbatim>\<open>strings.EqualFold\<close>: equality under case folding. The file compares with \<^verbatim>\<open>""\<close> and
  \<^verbatim>\<open>"pending"\<close> only; no letter of these has a fold partner outside ASCII, so folding the
  letters A-Z decides the comparison exactly as Go does.
\<close>

definition toLower :: "char \<Rightarrow> char" where
  "toLower c =
     (case map_of (zip ''ABCDEFGHIJKLMNOPQRSTUVWXYZ'' ''abcdefghijklmnopqrstuvwxyz'') c of
        Some l \<Rightarrow> l
      | None \<Rightarrow> c)"

definition EqualFold :: "string \<Rightarrow> string \<Rightarrow> bool" where
  "EqualFold s t = (map toLower s = map toLower t)"

text \<open>How a call of a Go function ends: it returns, or it panics (nil pointer dereference).\<close>

datatype 'a outcome = Returned 'a | Panicked

section \<open>The address polls (lines 428-462)\<close>

function getLoadBalancerIPAddress_loop ::
  "world \<Rightarrow> string \<Rightarrow> string \<Rightarrow> nat \<Rightarrow> trace \<Rightarrow> (error + string) \<times> trace" where
  "getLoadBalancerIPAddress_loop w namespace serviceName i tr =
     (if i < 10 then
        (let tr1 = tr @ [EvSleep 10];
             r = GetService w (length tr1) namespace serviceName;
             tr2 = tr1 @ [EvGetService namespace serviceName r]
         in case r of
              Inl err \<Rightarrow> (Inl (ServiceLookupFailed serviceName namespace err), tr2)
            | Inr service \<Rightarrow>
                (if length (Ingress service) > 0 then (Inr (IP (Ingress service ! 0)), tr2)
                 else getLoadBalancerIPAddress_loop w namespace serviceName (i + 1) tr2))
      else (Inl (ServiceTimeout serviceName namespace), tr))"
  by pat_completeness auto
termination
  by (relation "measure (\<lambda>(w, namespace, serviceName, i, tr). 10 - i)") auto

definition getLoadBalancerIPAddress ::
  "world \<Rightarrow> string \<Rightarrow> string \<Rightarrow> trace \<Rightarrow> (error + string) \<times> trace" where
  "getLoadBalancerIPAddress w namespace serviceName tr =
     getLoadBalancerIPAddress_loop w namespace serviceName 0 tr"

function getNodePortIPAddress_loop ::
  "world \<Rightarrow> string \<Rightarrow> string \<Rightarrow> nat \<Rightarrow> trace \<Rightarrow> (error + string) \<times> trace" where
  "getNodePortIPAddress_loop w namespace serviceName i tr =
     (if i < 10 then
        (let tr1 = tr @ [EvSleep 10];
             r = GetService w (length tr1) namespace serviceName;
             tr2 = tr1 @ [EvGetService namespace serviceName r]
         in case r of
              Inl err \<Rightarrow> (Inl (ServiceLookupFailed serviceName namespace err), tr2)
            | Inr service \<Rightarrow>
                (if \<not> EqualFold (ClusterIP service) [] then (Inr (ClusterIP service), tr2)
                 else getNodePortIPAddress_loop w namespace serviceName (i + 1) tr2))
      else (Inl (ServiceTimeout serviceName namespace), tr))"
  by pat_completeness auto
termination
  by (relation "measure (\<lambda>(w, namespace, serviceName, i, tr). 10 - i)") auto

definition getNodePortIPAddress ::
  "world \<Rightarrow> string \<Rightarrow> string \<Rightarrow> trace \<Rightarrow> (error + string) \<times> trace" where
  "getNodePortIPAddress w namespace serviceName tr =
     getNodePortIPAddress_loop w namespace serviceName 0 tr"

declare getLoadBalancerIPAddress_loop.simps [simp del]
declare getNodePortIPAddress_loop.simps [simp del]

section \<open>\<^verbatim>\<open>getPVCVolumeName\<close> (lines 409-426)\<close>

function getPVCVolumeName_loop ::
  "world \<Rightarrow> string \<Rightarrow> string \<Rightarrow> nat \<Rightarrow> trace \<Rightarrow> (error + string) \<times> trace" where
  "getPVCVolumeName_loop w namespace name i tr =
     (if i < 60 then
        (let tr1 = tr @ [EvSleep 10];
             r = GetPVC w (length tr1) namespace name;
             tr2 = tr1 @ [EvGetPVC namespace name r]
         in case r of
              Inl err \<Rightarrow> (Inl (PVCLookupFailed namespace err), tr2)
            | Inr volumeName \<Rightarrow>
                (if EqualFold volumeName [] then getPVCVolumeName_loop w namespace name (i + 1) tr2
                 else (Inr volumeName, tr2)))
      else (Inl (PVCTimeout namespace namespace), tr))"
  by pat_completeness auto
termination
  by (relation "measure (\<lambda>(w, namespace, name, i, tr). 60 - i)") auto

definition getPVCVolumeName ::
  "world \<Rightarrow> string \<Rightarrow> string \<Rightarrow> trace \<Rightarrow> (error + string) \<times> trace" where
  "getPVCVolumeName w namespace name tr = getPVCVolumeName_loop w namespace name 0 tr"

declare getPVCVolumeName_loop.simps [simp del]

section \<open>The deployers (lines 322-407)\<close>

text \<open>
  \<^verbatim>\<open>getPostgresDeployer\<close> makes no call to the cluster: it builds the deployer, looks the
  flavor up and adds the postgres replication controller and service.
\<close>

definition getPostgresDeployer :: "world \<Rightarrow> BlackduckSpec \<Rightarrow> error + batch" where
  "getPostgresDeployer w createHub =
     (case NewDeployer w of
        Some err \<Rightarrow> Inl (DeployerUnavailable err)
      | None \<Rightarrow>
          (case GetContainersFlavor w (Size createHub) of
             None \<Rightarrow> Inl (InvalidFlavor (Size createHub))
           | Some hubContainerFlavor \<Rightarrow> Inr PostgresBatch))"

text \<open>
  \<^verbatim>\<open>getHubConfigDeployer\<close> fetches the default passwords and does not look at the error
  of that call; the secrets and config maps it builds from them are the \<open>ConfigBatch\<close>.
\<close>

definition getHubConfigDeployer ::
  "world \<Rightarrow> Creater \<Rightarrow> BlackduckSpec \<Rightarrow> trace \<Rightarrow> (error + batch) \<times> trace" where
  "getHubConfigDeployer w hc createHub tr =
     (case NewDeployer w of
        Some err \<Rightarrow> (Inl (DeployerUnavailable err), tr)
      | None \<Rightarrow>
          (case GetDefaultPasswords w (length tr) (Config_Namespace hc) of
             (passwords, err) \<Rightarrow>
               (Inr ConfigBatch, tr @ [EvGetDefaultPasswords (Config_Namespace hc) passwords err])))"

text \<open>
  \<^verbatim>\<open>getHubDeployer\<close> logs a failure of \<^verbatim>\<open>addAnyUIDToServiceAccount\<close> and goes on. It then
  builds a second deployer and drops the error of that call (line 401); \<open>NewDeployer\<close> has
  one answer, which the check at line 376 has already seen to be a deployer.
\<close>

definition getHubDeployer ::
  "world \<Rightarrow> Creater \<Rightarrow> BlackduckSpec \<Rightarrow> trace \<Rightarrow> (error + batch) \<times> trace" where
  "getHubDeployer w hc createHub tr =
     (case NewDeployer w of
        Some err \<Rightarrow> (Inl (DeployerUnavailable err), tr)
      | None \<Rightarrow>
          (case GetContainersFlavor w (Size createHub) of
             None \<Rightarrow> (Inl (InvalidFlavor (Size createHub)), tr)
           | Some hubContainerFlavor \<Rightarrow>
               (let err = addAnyUIDToServiceAccount w (length tr);
                    tr1 = tr @ [EvAddAnyUID err];
                    tr2 = (case err of
                             Some e \<Rightarrow> tr1 @ [EvLogError ''addAnyUIDToServiceAccount'']
                           | None \<Rightarrow> tr1)
                in (Inr HubBatch, tr2))))"

section \<open>\<^verbatim>\<open>initPostgres\<close> (lines 281-320)\<close>

text \<open>
  The credential loop of lines 286-295. The three password variables are assigned by every
  call, also by a failing one; they start empty.
\<close>

function initPostgres_loop ::
  "world \<Rightarrow> Creater \<Rightarrow> nat \<Rightarrow> string \<times> string \<times> string \<Rightarrow> trace
     \<Rightarrow> (string \<times> string \<times> string) \<times> trace" where
  "initPostgres_loop w hc dbInitTry passwords tr =
     (if dbInitTry < 2147483647 then
        (case GetDefaultPasswords w (length tr) (Config_Namespace hc) of
           (passwords', err) \<Rightarrow>
             (let tr1 = tr @ [EvGetDefaultPasswords (Config_Namespace hc) passwords' err]
              in case err of
                   None \<Rightarrow> (passwords', tr1)
                 | Some e \<Rightarrow>
                     initPostgres_loop w hc (dbInitTry + 1) passwords'
                       (tr1 @ [EvLogInfo ''unable to init database, sleeping 5 seconds'', EvSleep 5])))
      else (passwords, tr))"
  by pat_completeness auto
termination
  by (relation "measure (\<lambda>(w, hc, dbInitTry, passwords, tr). 2147483647 - dbInitTry)") auto

declare initPostgres_loop.simps [simp del]

definition initPostgres ::
  "world \<Rightarrow> Creater \<Rightarrow> BlackduckSpec \<Rightarrow> trace \<Rightarrow> error option \<times> trace" where
  "initPostgres w hc createHub tr =
     (case initPostgres_loop w hc 0 ([], [], []) tr of
        (passwords, tr1) \<Rightarrow>
          (let err = WaitForServiceEndpointReady w (length tr1) (Namespace createHub) ''postgres'';
               tr2 = tr1 @ [EvWaitForServiceEndpointReady (Namespace createHub) ''postgres'' err]
           in case err of
                Some e \<Rightarrow> (Some e, tr2)
              | None \<Rightarrow>
                  (if length (DbPrototype createHub) = 0 then
                     (let err = InitDatabase w (length tr2) passwords;
                          tr3 = tr2 @ [EvInitDatabase passwords err]
                      in case err of
                           Some e \<Rightarrow>
                             (Some (InitDatabaseFailed (Namespace createHub) e),
                              tr3 @ [EvLogError ''InitDatabase''])
                         | None \<Rightarrow> (None, tr3))
                   else
                     (let r = GetHubDBPassword w (length tr2) (DbPrototype createHub);
                          tr3 = tr2 @ [EvGetHubDBPassword (DbPrototype createHub) r]
                      in case r of
                           Inl e \<Rightarrow> (Some e, tr3)
                         | Inr fromPw \<Rightarrow>
                             (let err = CloneJob w (length tr3) (Config_Namespace hc)
                                          (DbPrototype createHub) (Namespace createHub) fromPw;
                                  tr4 = tr3 @ [EvCloneJob (Config_Namespace hc)
                                          (DbPrototype createHub) (Namespace createHub) fromPw err]
                              in (err, tr4))))))"

section \<open>\<^verbatim>\<open>Start\<close> (lines 200-240) and \<^verbatim>\<open>Stop\<close> (lines 242-279)\<close>

text \<open>Lines 212-232 of \<^verbatim>\<open>Start\<close>: the postgres block. \<open>None\<close>: the block falls through.\<close>

definition Start_postgres ::
  "world \<Rightarrow> Creater \<Rightarrow> BlackduckSpec \<Rightarrow> trace \<Rightarrow> error option \<times> trace" where
  "Start_postgres w hc createHub tr =
     (if ExternalPostgres createHub = None then
        (case getPostgresDeployer w createHub of
           Inl err \<Rightarrow> (Some err, tr)
         | Inr pg \<Rightarrow>
             (let err = Run w (length tr) pg;
                  tr1 = tr @ [EvRun pg err]
              in case err of
                   Some e \<Rightarrow> (Some e, tr1)
                 | None \<Rightarrow>
                     (if \<not> PersistentStorage createHub
                         \<or> (PersistentStorage createHub \<and> EqualFold (State createHub) ''pending'')
                      then initPostgres w hc createHub tr1
                      else (None, tr1))))
      else (None, tr))"

definition Start ::
  "world \<Rightarrow> Creater \<Rightarrow> BlackduckSpec \<Rightarrow> trace \<Rightarrow> error option \<times> trace" where
  "Start w hc createHub tr =
     (case getHubConfigDeployer w hc createHub tr of
        (Inl err, tr1) \<Rightarrow> (Some err, tr1)
      | (Inr deployer, tr1) \<Rightarrow>
          (let err = Run w (length tr1) deployer;
               tr2 = tr1 @ [EvRun deployer err]
           in case err of
                Some e \<Rightarrow> (Some e, tr2)
              | None \<Rightarrow>
                  (case Start_postgres w hc createHub tr2 of
                     (Some e, tr3) \<Rightarrow> (Some e, tr3)
                   | (None, tr3) \<Rightarrow>
                       (case getHubDeployer w hc createHub tr3 of
                          (Inl err, tr4) \<Rightarrow> (Some err, tr4)
                        | (Inr deployer, tr4) \<Rightarrow>
                            (let err = Run w (length tr4) deployer
                             in (err, tr4 @ [EvRun deployer err]))))))"



section \<open>\<^verbatim>\<open>CreateHub\<close> (lines 105-198)\<close>

text \<open>Lines 161-171: the volume name of every claim, when persistent storage is on.\<close>

fun CreateHub_pvc_loop ::
  "world \<Rightarrow> string \<Rightarrow> PVCClaim list \<Rightarrow> (string \<rightharpoonup> string) \<Rightarrow> trace
     \<Rightarrow> (error + (string \<rightharpoonup> string)) \<times> trace" where
  "CreateHub_pvc_loop w namespace [] pvcVolumeNames tr = (Inr pvcVolumeNames, tr)"
| "CreateHub_pvc_loop w namespace (v # vs) pvcVolumeNames tr =
     (case getPVCVolumeName w namespace (Name v) tr of
        (Inl err, tr1) \<Rightarrow> (Inl err, tr1)
      | (Inr pvName, tr1) \<Rightarrow>
          CreateHub_pvc_loop w namespace vs (pvcVolumeNames(Name v \<mapsto> pvName)) tr1)"

definition CreateHub_pvcs ::
  "world \<Rightarrow> BlackduckSpec \<Rightarrow> trace \<Rightarrow> (error + (string \<rightharpoonup> string)) \<times> trace" where
  "CreateHub_pvcs w createHub tr =
     (if PersistentStorage createHub
      then CreateHub_pvc_loop w (Namespace createHub) (PVC createHub) Map.empty tr
      else (Inr Map.empty, tr))"

text \<open>
  The result of \<^verbatim>\<open>CreateHub\<close>: the address, the map of volume names (\<open>None\<close>: the nil
  map), the flag and the error.
\<close>

type_synonym CreateHub_result = "string \<times> (string \<rightharpoonup> string) option \<times> bool \<times> error option"

text \<open>Lines 173-197: the address of the hub.\<close>

definition CreateHub_endpoint ::
  "world \<Rightarrow> Creater \<Rightarrow> BlackduckSpec \<Rightarrow> (string \<rightharpoonup> string) \<Rightarrow> trace
     \<Rightarrow> CreateHub_result \<times> trace" where
  "CreateHub_endpoint w hc createHub pvcVolumeNames tr =
     (case (if routeClient hc \<noteq> None then
              (let r = CreateOpenShiftRoutes w (length tr) (Namespace createHub);
                   tr1 = tr @ [EvCreateRoute (Namespace createHub) r]
               in case r of
                    Inl err \<Rightarrow> (Inl err, tr1)
                  | Inr host \<Rightarrow> (Inr host, tr1))
            else (Inr [], tr)) of
        (Inl err, tr1) \<Rightarrow> (([], Some pvcVolumeNames, False, Some err), tr1)
      | (Inr ipAddress, tr1) \<Rightarrow>
          (let tr2 = tr1 @ [EvSleep 60]
           in if EqualFold ipAddress [] then
                (case getLoadBalancerIPAddress w (Namespace createHub) ''webserver-lb'' tr2 of
                   (Inr ipAddress, tr3) \<Rightarrow>
                     ((ipAddress, Some pvcVolumeNames, False, None),
                      tr3 @ [EvLogInfo ''hub Ip address''])
                 | (Inl err, tr3) \<Rightarrow>
                     (case getNodePortIPAddress w (Namespace createHub) ''webserver-np'' tr3 of
                        (Inr ipAddress, tr4) \<Rightarrow>
                          ((ipAddress, Some pvcVolumeNames, False, None),
                           tr4 @ [EvLogInfo ''hub Ip address''])
                      | (Inl err, tr4) \<Rightarrow> (([], Some pvcVolumeNames, False, Some err), tr4)))
              else ((ipAddress, Some pvcVolumeNames, False, None),
                    tr2 @ [EvLogInfo ''hub Ip address''])))"

text \<open>
  Lines 142-197: the exposure batch, the check that the pods run, the volume names and the
  address. The deployer is built a second time here (line 143).
\<close>

definition CreateHub_expose ::
  "world \<Rightarrow> Creater \<Rightarrow> BlackduckSpec \<Rightarrow> trace \<Rightarrow> CreateHub_result \<times> trace" where
  "CreateHub_expose w hc createHub tr =
     (case NewDeployer w of
        Some err \<Rightarrow> (([], None, True, Some (DeployerUnavailable err)), tr)
      | None \<Rightarrow>
          (let err = Run w (length tr) ExposeBatch;
               tr1 = tr @ [EvRun ExposeBatch err]
           in case err of
                Some e \<Rightarrow> (([], None, True, Some e), tr1)
              | None \<Rightarrow>
                  (let err = ValidatePodsAreRunningInNamespace w (length tr1) (Namespace createHub);
                       tr2 = tr1 @ [EvValidatePods (Namespace createHub) err]
                   in case err of
                        Some e \<Rightarrow> (([], None, True, Some e), tr2)
                      | None \<Rightarrow>
                          (case CreateHub_pvcs w createHub tr2 of
                             (Inl err, tr3) \<Rightarrow> (([], None, False, Some err), tr3)
                           | (Inr pvcVolumeNames, tr3) \<Rightarrow>
                               CreateHub_endpoint w hc createHub pvcVolumeNames tr3))))"

text \<open>
  Lines 106-140, then the rest. A failure of the first \<^verbatim>\<open>deployer.Run()\<close> (line 131) is
  logged, and \<^verbatim>\<open>CreateHub\<close> goes on.
\<close>

definition CreateHub ::
  "world \<Rightarrow> Creater \<Rightarrow> BlackduckSpec \<Rightarrow> trace \<Rightarrow> CreateHub_result \<times> trace" where
  "CreateHub w hc createHub tr =
     (case NewDeployer w of
        Some err \<Rightarrow> (([], None, True, Some (DeployerUnavailable err)), tr)
      | None \<Rightarrow>
          (case GetContainersFlavor w (Size createHub) of
             None \<Rightarrow> (([], None, True, Some (InvalidFlavor (Size createHub))), tr)
           | Some hubContainerFlavor \<Rightarrow>
               (let err = hc_init w (length tr);
                    tr1 = tr @ [EvInit err]
                in case err of
                     Some e \<Rightarrow> (([], None, True, Some e), tr1)
                   | None \<Rightarrow>
                       (let err = Run w (length tr1) InitBatch;
                            tr2 = tr1 @ [EvRun InitBatch err];
                            tr3 = (case err of
                                     Some e \<Rightarrow> tr2 @ [EvLogError ''init deployments failed'']
                                   | None \<Rightarrow> tr2)
                        in case Start w hc createHub tr3 of
                             (Some e, tr4) \<Rightarrow> (([], None, True, Some e), tr4)
                           | (None, tr4) \<Rightarrow> CreateHub_expose w hc createHub tr4))))"

section \<open>\<^verbatim>\<open>DeleteHub\<close> (lines 62-103)\<close>

text \<open>
  The loop of lines 79-88 has no bound: \<open>fuel\<close> counts the iterations the model may take,
  and \<open>None\<close> is a loop that has not ended within them. An iteration reads \<^verbatim>\<open>ns.Status\<close>
  for the log line before anything looks at \<^verbatim>\<open>err\<close>; with a nil \<^verbatim>\<open>ns\<close> that read panics.
\<close>

fun DeleteHub_loop ::
  "world \<Rightarrow> string \<Rightarrow> nat \<Rightarrow> trace \<Rightarrow> (unit outcome \<times> trace) option" where
  "DeleteHub_loop w namespace 0 tr = None"
| "DeleteHub_loop w namespace (Suc fuel) tr =
     (case GetNamespace w (length tr) namespace of
        (ns, err) \<Rightarrow>
          (let tr1 = tr @ [EvGetNamespace namespace ns err]
           in case ns of
                None \<Rightarrow> Some (Panicked, tr1)
              | Some status \<Rightarrow>
                  (let tr2 = tr1 @ [EvLogInfo (''namespace status: '' @ status)];
                       tr3 = tr2 @ [EvSleep 10]
                   in case err of
                        Some e \<Rightarrow> Some (Returned (), tr3 @ [EvLogInfo ''deleted the namespace''])
                      | None \<Rightarrow> DeleteHub_loop w namespace fuel tr3)))"

text \<open>Lines 67-89: the namespace block.\<close>

definition DeleteHub_namespace ::
  "world \<Rightarrow> string \<Rightarrow> nat \<Rightarrow> trace \<Rightarrow> (unit outcome \<times> trace) option" where
  "DeleteHub_namespace w namespace fuel tr =
     (case GetNamespace w (length tr) namespace of
        (ns, err) \<Rightarrow>
          (let tr1 = tr @ [EvGetNamespace namespace ns err]
           in case err of
                Some e \<Rightarrow> Some (Returned (), tr1 @ [EvLogError ''unable to find the namespace''])
              | None \<Rightarrow>
                  (let err = DeleteNamespace w (length tr1) namespace;
                       tr2 = tr1 @ [EvDeleteNamespace namespace err];
                       tr3 = (case err of
                                Some e \<Rightarrow> tr2 @ [EvLogError ''unable to delete the namespace'']
                              | None \<Rightarrow> tr2)
                   in DeleteHub_loop w namespace fuel tr3)))"

definition DeleteHub ::
  "world \<Rightarrow> string \<Rightarrow> nat \<Rightarrow> trace \<Rightarrow> (error option outcome \<times> trace) option" where
  "DeleteHub w namespace fuel tr =
     (case DeleteHub_namespace w namespace fuel (tr @ [EvLogInfo ''Deleting hub'']) of
        None \<Rightarrow> None
      | Some (Panicked, tr1) \<Rightarrow> Some (Panicked, tr1)
      | Some (Returned u, tr1) \<Rightarrow>
          (let err = DeletePersistentVolume w (length tr1) namespace;
               tr2 = tr1 @ [EvDeletePersistentVolume namespace err];
               tr3 = (case err of
                        Some e \<Rightarrow> tr2 @ [EvLogError ''unable to delete the pv'']
                      | None \<Rightarrow> tr2);
               err = DeleteClusterRoleBinding w (length tr3) namespace;
               tr4 = tr3 @ [EvDeleteClusterRoleBinding namespace err];
               tr5 = (case err of
                        Some e \<Rightarrow> tr4 @ [EvLogError ''unable to delete the cluster role binding'']
                      | None \<Rightarrow> tr4)
           in Some (Returned None, tr5)))"

section \<open>Observations on traces\<close>

text \<open>
  The answer of the cluster to attempt \<open>k\<close> (from 0) of an address poll that starts with
  trace \<open>tr\<close>: every attempt sleeps, then asks, so it asks when the trace has
  \<open>length tr + 2 * k + 1\<close> entries.
\<close>

definition answer :: "world \<Rightarrow> string \<Rightarrow> string \<Rightarrow> trace \<Rightarrow> nat \<Rightarrow> error + Service" where
  "answer w namespace serviceName tr k = GetService w (length tr + 2 * k + 1) namespace serviceName"

text \<open>An answer that makes the poll go round again: a service without the address.\<close>

definition lb_pending :: "error + Service \<Rightarrow> bool" where
  "lb_pending r = (case r of Inl e \<Rightarrow> False | Inr service \<Rightarrow> length (Ingress service) = 0)"

definition np_pending :: "error + Service \<Rightarrow> bool" where
  "np_pending r = (case r of Inl e \<Rightarrow> False | Inr service \<Rightarrow> EqualFold (ClusterIP service) [])"

text \<open>The trace of \<open>n\<close> attempts of an address poll that starts at time \<open>t\<close>.\<close>

fun poll_events :: "world \<Rightarrow> string \<Rightarrow> string \<Rightarrow> nat \<Rightarrow> nat \<Rightarrow> trace" where
  "poll_events w namespace serviceName t 0 = []"
| "poll_events w namespace serviceName t (Suc n) =
     EvSleep 10 # EvGetService namespace serviceName (GetService w (Suc t) namespace serviceName)
       # poll_events w namespace serviceName (t + 2) n"

section \<open>Example clusters\<close>

text \<open>
  A cluster on which every call succeeds at once. There is no load balancer service; the
  node port service has a cluster address.
\<close>

definition ok_world :: world where
  "ok_world =
     \<lparr> NewDeployer = None,
       GetContainersFlavor =
         (\<lambda>size. if map toLower size \<in> set [''small'', ''medium'', ''large'', ''x-large'']
                  then Some (map toLower size) else None),
       hc_init = (\<lambda>t. None),
       Run = (\<lambda>t b. None),
       Undeploy = (\<lambda>t b. None),
       GetDefaultPasswords = (\<lambda>t ns. ((''admin'', ''user'', ''postgres''), None)),
       addAnyUIDToServiceAccount = (\<lambda>t. None),
       WaitForServiceEndpointReady = (\<lambda>t ns n. None),
       InitDatabase = (\<lambda>t pw. None),
       GetHubDBPassword = (\<lambda>t n. Inr ''secret''),
       CloneJob = (\<lambda>t a b c d. None),
       ValidatePodsAreRunningInNamespace = (\<lambda>t ns. None),
       GetPVC = (\<lambda>t ns n. Inr (''pv-'' @ n)),
       CreateOpenShiftRoutes = (\<lambda>t ns. Inr ''hub.example.com''),
       GetService =
         (\<lambda>t ns n. if n = ''webserver-np'' then Inr \<lparr>Ingress = [], ClusterIP = ''10.0.0.7''\<rparr>
                    else Inl (Platform ''not found'')),
       GetNamespace = (\<lambda>t ns. (Some ''Active'', None)),
       DeleteNamespace = (\<lambda>t ns. None),
       DeletePersistentVolume = (\<lambda>t ns. None),
       DeleteClusterRoleBinding = (\<lambda>t ns. None) \<rparr>"

text \<open>
  A cluster whose load balancer service gets its ingress address at time 5 and has no
  cluster address; it has no node port service.
\<close>

definition lb_world :: world where
  "lb_world =
     ok_world \<lparr> GetService :=
       (\<lambda>t ns n. if n = ''webserver-lb''
                  then Inr \<lparr>Ingress = (if t < 5 then [] else [\<lparr>IP = ''35.0.0.1'', Hostname = []\<rparr>]),
                           ClusterIP = []\<rparr>
                  else Inl (Platform ''not found'')) \<rparr>"

definition hc0 :: Creater where
  "hc0 = \<lparr> Config_Namespace = ''operator'', routeClient = None \<rparr>"

definition bd1 :: BlackduckSpec where
  "bd1 = \<lparr> Namespace = ''ns1'', Size = ''small'', PersistentStorage = False, PVC = [],
           ExternalPostgres = None, State = ''pending'', DbPrototype = [] \<rparr>"

text \<open>The events of lines 91-101 of \<^verbatim>\<open>DeleteHub\<close>, started at time \<open>t\<close>.\<close>

definition cleanup_events :: "world \<Rightarrow> string \<Rightarrow> nat \<Rightarrow> trace" where
  "cleanup_events w namespace t =
     (let r1 = DeletePersistentVolume w t namespace;
          ext1 = EvDeletePersistentVolume namespace r1
                   # (case r1 of Some e \<Rightarrow> [EvLogError ''unable to delete the pv''] | None \<Rightarrow> []);
          r2 = DeleteClusterRoleBinding w (t + length ext1) namespace
      in ext1 @ EvDeleteClusterRoleBinding namespace r2
           # (case r2 of Some e \<Rightarrow> [EvLogError ''unable to delete the cluster role binding'']
              | None \<Rightarrow> []))"

text \<open>A namespace lookup.\<close>

fun is_lookup :: "event \<Rightarrow> bool" where
  "is_lookup (EvGetNamespace namespace ns err) = True"
| "is_lookup ev = False"

text \<open>
  The time of the first lookup of the loop of lines 79-88 in a \<^verbatim>\<open>DeleteHub\<close> that starts
  with trace \<open>tr\<close> and finds the namespace: after the first log line, the lookup, the
  delete and, when the delete fails, its log line.
\<close>

definition loop_start :: "world \<Rightarrow> string \<Rightarrow> trace \<Rightarrow> nat" where
  "loop_start w namespace tr =
     length tr + 3 + (case DeleteNamespace w (Suc (Suc (length tr))) namespace of None \<Rightarrow> 0 | Some e \<Rightarrow> 1)"

text \<open>
  The answer to lookup \<open>k\<close> (from 0) of the loop of lines 79-88 started with trace \<open>tr\<close>:
  an iteration that goes round adds the lookup, the status line and the sleep.
\<close>

definition wait_answer :: "world \<Rightarrow> string \<Rightarrow> trace \<Rightarrow> nat \<Rightarrow> string option \<times> error option" where
  "wait_answer w namespace tr k = GetNamespace w (length tr + 3 * k) namespace"

text \<open>
  The trace of \<open>n\<close> iterations of that loop, started at time \<open>t\<close>, whose lookups hand back
  the namespace.
\<close>

fun wait_events :: "world \<Rightarrow> string \<Rightarrow> nat \<Rightarrow> nat \<Rightarrow> trace" where
  "wait_events w namespace t 0 = []"
| "wait_events w namespace t (Suc n) =
     EvGetNamespace namespace (fst (GetNamespace w t namespace)) (snd (GetNamespace w t namespace))
       # EvLogInfo (''namespace status: ''
                    @ (case fst (GetNamespace w t namespace) of Some status \<Rightarrow> status | None \<Rightarrow> []))
       # EvSleep 10
       # wait_events w namespace (t + 3) n"

text \<open>
  Three clusters for \<^verbatim>\<open>DeleteHub\<close>; on each, a lookup that fails hands back an empty
  namespace object with its error. On \<open>stubborn_world\<close> every delete is refused and the
  namespace is gone from time 2. On \<open>gone_world\<close> there is no namespace. On
  \<open>terminating_world\<close> the namespace is there until time 8.
\<close>

definition stubborn_world :: world where
  "stubborn_world =
     ok_world \<lparr> GetNamespace := (\<lambda>t ns. if t < 2 then (Some ''Active'', None)
                                       else (Some [], Some (Platform ''not found''))),
                DeleteNamespace := (\<lambda>t ns. Some (Platform ''forbidden'')),
                DeletePersistentVolume := (\<lambda>t ns. Some (Platform ''forbidden'')),
                DeleteClusterRoleBinding := (\<lambda>t ns. Some (Platform ''forbidden'')) \<rparr>"

definition gone_world :: world where
  "gone_world = ok_world \<lparr> GetNamespace := (\<lambda>t ns. (Some [], Some (Platform ''not found''))) \<rparr>"

definition terminating_world :: world where
  "terminating_world =
     ok_world \<lparr> GetNamespace := (\<lambda>t ns. if t < 8 then (Some ''Terminating'', None)
                                       else (Some [], Some (Platform ''not found''))) \<rparr>"

text \<open>The events that the loop of lines 79-88 can add.\<close>

fun loop_event :: "event \<Rightarrow> bool" where
  "loop_event (EvGetNamespace namespace ns err) = True"
| "loop_event (EvLogInfo msg) = True"
| "loop_event (EvSleep n) = True"
| "loop_event ev = False"

text \<open>
  The answer to attempt \<open>k\<close> (from 0) of the credential loop of \<^verbatim>\<open>initPostgres\<close> started
  with trace \<open>tr\<close>: a failed attempt adds the call, a log line and a sleep.
\<close>

definition fetch_answer ::
  "world \<Rightarrow> Creater \<Rightarrow> trace \<Rightarrow> nat \<Rightarrow> (string \<times> string \<times> string) \<times> error option" where
  "fetch_answer w hc tr k = GetDefaultPasswords w (length tr + 3 * k) (Config_Namespace hc)"

text \<open>The trace of \<open>n\<close> failed attempts of the credential loop started at time \<open>t\<close>.\<close>

fun retry_events :: "world \<Rightarrow> string \<Rightarrow> nat \<Rightarrow> nat \<Rightarrow> trace" where
  "retry_events w namespace t 0 = []"
| "retry_events w namespace t (Suc n) =
     EvGetDefaultPasswords namespace (fst (GetDefaultPasswords w t namespace))
         (snd (GetDefaultPasswords w t namespace))
       # EvLogInfo ''unable to init database, sleeping 5 seconds'' # EvSleep 5
       # retry_events w namespace (t + 3) n"

text \<open>A fetch of the default passwords.\<close>

fun is_fetch :: "event \<Rightarrow> bool" where
  "is_fetch (EvGetDefaultPasswords namespace passwords err) = True"
| "is_fetch ev = False"

text \<open>
  On \<open>locked_world\<close> the operator secret can never be read; on \<open>slow_world\<close> it can be
  read from time 6.
\<close>

definition locked_world :: world where
  "locked_world =
     ok_world \<lparr> GetDefaultPasswords := (\<lambda>t ns. (([], [], []), Some (Platform ''forbidden''))) \<rparr>"

definition slow_world :: world where
  "slow_world =
     ok_world \<lparr> GetDefaultPasswords :=
       (\<lambda>t ns. if t < 6 then (([], [], []), Some (Platform ''not found''))
                else ((''admin'', ''user'', ''postgres''), None)) \<rparr>"

text \<open>The batches a trace removes, in order, each with the answer.\<close>

fun undeploys :: "trace \<Rightarrow> (batch \<times> error option) list" where
  "undeploys [] = []"
| "undeploys (EvUndeploy b r # evs) = (b, r) # undeploys evs"
| "undeploys (ev # evs) = undeploys evs"

text \<open>An application of a batch.\<close>

fun is_apply :: "event \<Rightarrow> bool" where
  "is_apply (EvRun b r) = True"
| "is_apply ev = False"


text \<open>The wait for the postgres endpoint: the first step of \<^verbatim>\<open>initPostgres\<close> after its credential loop.\<close>

fun is_db_wait :: "event \<Rightarrow> bool" where
  "is_db_wait (EvWaitForServiceEndpointReady namespace name err) = True"
| "is_db_wait ev = False"

text \<open>The events that \<^verbatim>\<open>initPostgres\<close>, the postgres block of \<^verbatim>\<open>Start\<close>, and \<^verbatim>\<open>Start\<close> can add.\<close>

fun init_event :: "event \<Rightarrow> bool" where
  "init_event (EvGetDefaultPasswords namespace passwords err) = True"
| "init_event (EvLogInfo msg) = True"
| "init_event (EvLogError msg) = True"
| "init_event (EvSleep n) = (n = 5)"
| "init_event (EvWaitForServiceEndpointReady namespace name err) = True"
| "init_event (EvInitDatabase passwords err) = True"
| "init_event (EvGetHubDBPassword name r) = True"
| "init_event (EvCloneJob a b c d err) = True"
| "init_event ev = False"

fun start_event :: "event \<Rightarrow> bool" where
  "start_event (EvRun b err) = (b = ConfigBatch \<or> b = PostgresBatch \<or> b = HubBatch)"
| "start_event (EvAddAnyUID err) = True"
| "start_event ev = init_event ev"

fun postgres_event :: "event \<Rightarrow> bool" where
  "postgres_event (EvRun b err) = (b = PostgresBatch)"
| "postgres_event ev = init_event ev"

text \<open>The condition of line 226.\<close>

definition database_gate :: "BlackduckSpec \<Rightarrow> bool" where
  "database_gate createHub \<longleftrightarrow>
     \<not> PersistentStorage createHub
     \<or> (PersistentStorage createHub \<and> EqualFold (State createHub) ''pending'')"

text \<open>Variants of the instance \<open>bd1\<close>, and a cluster that cannot remove the database batch.\<close>

definition bd_upper :: BlackduckSpec where
  "bd_upper = bd1 \<lparr> PersistentStorage := True, State := ''PENDING'' \<rparr>"

definition bd_running :: BlackduckSpec where
  "bd_running = bd1 \<lparr> PersistentStorage := True, State := ''running'' \<rparr>"

definition bd_external :: BlackduckSpec where
  "bd_external = bd1 \<lparr> ExternalPostgres := Some ''db.example.com'' \<rparr>"


text \<open>
  A trace shows that \<^verbatim>\<open>initPostgres\<close> has run when it holds a wait for the postgres
  endpoint: \<^verbatim>\<open>initPostgres\<close> always gets to that wait, since its credential loop ends, and
  nothing else in the file waits for an endpoint.
\<close>

definition init_attempted :: "trace \<Rightarrow> bool" where
  "init_attempted ext = list_ex is_db_wait ext"

section \<open>Lemmas: the address polls\<close>

lemma EqualFold_Nil [simp]: "EqualFold s [] \<longleftrightarrow> s = []"
  by (simp add: EqualFold_def)

lemma length_poll_events [simp]: "length (poll_events w ns svc t n) = 2 * n"
  by (induction n arbitrary: t) auto

lemma poll_events_snoc:
  "poll_events w ns svc t (Suc n) =
     poll_events w ns svc t n @ [EvSleep 10, EvGetService ns svc (GetService w (t + 2 * n + 1) ns svc)]"
  by (induction n arbitrary: t) auto

lemma first_decisive:
  "(\<forall>k<m. P k) \<or> (\<exists>n<m. \<not> P n \<and> (\<forall>k<n. P k))" for P :: "nat \<Rightarrow> bool"
proof (cases "\<forall>k<m. P k")
  case True
  then show ?thesis by simp
next
  case False
  then have "\<exists>n. n < m \<and> \<not> P n" by blast
  then obtain n where n: "n < m \<and> \<not> P n" "\<forall>j<n. \<not> (j < m \<and> \<not> P j)"
    using exists_least_iff [of "\<lambda>n. n < m \<and> \<not> P n"] by blast
  then have "\<forall>k<n. P k" by (meson less_trans)
  with n(1) show ?thesis by blast
qed

lemma lb_step_pending:
  "i < 10 \<Longrightarrow> lb_pending (GetService w (Suc (length tr)) ns svc) \<Longrightarrow>
   getLoadBalancerIPAddress_loop w ns svc i tr =
     getLoadBalancerIPAddress_loop w ns svc (Suc i) (tr @ poll_events w ns svc (length tr) 1)"
  by (subst getLoadBalancerIPAddress_loop.simps) (simp add: lb_pending_def split: sum.splits)

lemma lb_skip:
  "i + n \<le> 10 \<Longrightarrow> \<forall>k<n. lb_pending (answer w ns svc tr k) \<Longrightarrow>
   getLoadBalancerIPAddress_loop w ns svc i tr =
     getLoadBalancerIPAddress_loop w ns svc (i + n) (tr @ poll_events w ns svc (length tr) n)"
proof (induction n arbitrary: i tr)
  case 0
  then show ?case by simp
next
  case (Suc n)
  let ?tr2 = "tr @ poll_events w ns svc (length tr) 1"
  have p0: "lb_pending (GetService w (Suc (length tr)) ns svc)"
    using Suc.prems(2) [rule_format, of 0] by (simp add: answer_def)
  have pk: "\<forall>k<n. lb_pending (answer w ns svc ?tr2 k)"
  proof (intro allI impI)
    fix k assume "k < n"
    then show "lb_pending (answer w ns svc ?tr2 k)"
      using Suc.prems(2) [rule_format, of "Suc k"] by (simp add: answer_def)
  qed
  have "Suc i + n \<le> 10" using Suc.prems(1) by simp
  from Suc.IH [OF this pk] Suc.prems(1) p0 show ?case
    by (simp add: lb_step_pending)
qed

lemma lb_found:
  assumes "n < 10" "\<forall>k<n. lb_pending (answer w ns svc tr k)"
    "answer w ns svc tr n = Inr s" "0 < length (Ingress s)"
  shows "getLoadBalancerIPAddress w ns svc tr =
           (Inr (IP (Ingress s ! 0)), tr @ poll_events w ns svc (length tr) (Suc n))"
proof -
  have "getLoadBalancerIPAddress w ns svc tr =
          getLoadBalancerIPAddress_loop w ns svc n (tr @ poll_events w ns svc (length tr) n)"
    unfolding getLoadBalancerIPAddress_def using lb_skip [of 0 n w ns svc tr] assms(1,2) by simp
  also have "\<dots> = (Inr (IP (Ingress s ! 0)), tr @ poll_events w ns svc (length tr) (Suc n))"
    using assms(1,3,4)
    by (subst getLoadBalancerIPAddress_loop.simps) (simp add: answer_def poll_events_snoc del: poll_events.simps)
  finally show ?thesis .
qed

lemma lb_error:
  assumes "n < 10" "\<forall>k<n. lb_pending (answer w ns svc tr k)" "answer w ns svc tr n = Inl e"
  shows "getLoadBalancerIPAddress w ns svc tr =
           (Inl (ServiceLookupFailed svc ns e), tr @ poll_events w ns svc (length tr) (Suc n))"
proof -
  have "getLoadBalancerIPAddress w ns svc tr =
          getLoadBalancerIPAddress_loop w ns svc n (tr @ poll_events w ns svc (length tr) n)"
    unfolding getLoadBalancerIPAddress_def using lb_skip [of 0 n w ns svc tr] assms(1,2) by simp
  also have "\<dots> = (Inl (ServiceLookupFailed svc ns e), tr @ poll_events w ns svc (length tr) (Suc n))"
    using assms(1,3)
    by (subst getLoadBalancerIPAddress_loop.simps) (simp add: answer_def poll_events_snoc del: poll_events.simps)
  finally show ?thesis .
qed

lemma lb_timeout:
  assumes "\<forall>k<10. lb_pending (answer w ns svc tr k)"
  shows "getLoadBalancerIPAddress w ns svc tr =
           (Inl (ServiceTimeout svc ns), tr @ poll_events w ns svc (length tr) 10)"
proof -
  have "getLoadBalancerIPAddress w ns svc tr =
          getLoadBalancerIPAddress_loop w ns svc 10 (tr @ poll_events w ns svc (length tr) 10)"
    unfolding getLoadBalancerIPAddress_def using lb_skip [of 0 10 w ns svc tr] assms by simp
  also have "\<dots> = (Inl (ServiceTimeout svc ns), tr @ poll_events w ns svc (length tr) 10)"
    by (subst getLoadBalancerIPAddress_loop.simps) simp
  finally show ?thesis .
qed

lemma lb_bounded:
  "\<exists>n\<le>10. snd (getLoadBalancerIPAddress w ns svc tr) = tr @ poll_events w ns svc (length tr) n"
proof -
  let ?P = "\<lambda>k. lb_pending (answer w ns svc tr k)"
  from first_decisive [of 10 ?P] show ?thesis
  proof
    assume "\<forall>k<10. ?P k"
    from lb_timeout [OF this] show ?thesis by (intro exI [of _ 10]) simp
  next
    assume "\<exists>n<10. \<not> ?P n \<and> (\<forall>k<n. ?P k)"
    then obtain n where n: "n < 10" "\<not> ?P n" "\<forall>k<n. ?P k" by blast
    show ?thesis
    proof (cases "answer w ns svc tr n")
      case (Inl e)
      from lb_error [OF n(1) n(3) Inl] n(1) show ?thesis by (intro exI [of _ "Suc n"]) simp
    next
      case (Inr s)
      with n(2) have "0 < length (Ingress s)" by (simp add: lb_pending_def)
      from lb_found [OF n(1) n(3) Inr this] n(1) show ?thesis by (intro exI [of _ "Suc n"]) simp
    qed
  qed
qed

lemma np_step_pending:
  "i < 10 \<Longrightarrow> np_pending (GetService w (Suc (length tr)) ns svc) \<Longrightarrow>
   getNodePortIPAddress_loop w ns svc i tr =
     getNodePortIPAddress_loop w ns svc (Suc i) (tr @ poll_events w ns svc (length tr) 1)"
  by (subst getNodePortIPAddress_loop.simps) (simp add: np_pending_def split: sum.splits)

lemma np_skip:
  "i + n \<le> 10 \<Longrightarrow> \<forall>k<n. np_pending (answer w ns svc tr k) \<Longrightarrow>
   getNodePortIPAddress_loop w ns svc i tr =
     getNodePortIPAddress_loop w ns svc (i + n) (tr @ poll_events w ns svc (length tr) n)"
proof (induction n arbitrary: i tr)
  case 0
  then show ?case by simp
next
  case (Suc n)
  let ?tr2 = "tr @ poll_events w ns svc (length tr) 1"
  have p0: "np_pending (GetService w (Suc (length tr)) ns svc)"
    using Suc.prems(2) [rule_format, of 0] by (simp add: answer_def)
  have pk: "\<forall>k<n. np_pending (answer w ns svc ?tr2 k)"
  proof (intro allI impI)
    fix k assume "k < n"
    then show "np_pending (answer w ns svc ?tr2 k)"
      using Suc.prems(2) [rule_format, of "Suc k"] by (simp add: answer_def)
  qed
  have "Suc i + n \<le> 10" using Suc.prems(1) by simp
  from Suc.IH [OF this pk] Suc.prems(1) p0 show ?case
    by (simp add: np_step_pending)
qed

lemma np_found:
  assumes "n < 10" "\<forall>k<n. np_pending (answer w ns svc tr k)"
    "answer w ns svc tr n = Inr s" "\<not> EqualFold (ClusterIP s) []"
  shows "getNodePortIPAddress w ns svc tr =
           (Inr (ClusterIP s), tr @ poll_events w ns svc (length tr) (Suc n))"
proof -
  have "getNodePortIPAddress w ns svc tr =
          getNodePortIPAddress_loop w ns svc n (tr @ poll_events w ns svc (length tr) n)"
    unfolding getNodePortIPAddress_def using np_skip [of 0 n w ns svc tr] assms(1,2) by simp
  also have "\<dots> = (Inr (ClusterIP s), tr @ poll_events w ns svc (length tr) (Suc n))"
    using assms(1,3,4)
    by (subst getNodePortIPAddress_loop.simps) (simp add: answer_def poll_events_snoc del: poll_events.simps)
  finally show ?thesis .
qed

lemma np_error:
  assumes "n < 10" "\<forall>k<n. np_pending (answer w ns svc tr k)" "answer w ns svc tr n = Inl e"
  shows "getNodePortIPAddress w ns svc tr =
           (Inl (ServiceLookupFailed svc ns e), tr @ poll_events w ns svc (length tr) (Suc n))"
proof -
  have "getNodePortIPAddress w ns svc tr =
          getNodePortIPAddress_loop w ns svc n (tr @ poll_events w ns svc (length tr) n)"
    unfolding getNodePortIPAddress_def using np_skip [of 0 n w ns svc tr] assms(1,2) by simp
  also have "\<dots> = (Inl (ServiceLookupFailed svc ns e), tr @ poll_events w ns svc (length tr) (Suc n))"
    using assms(1,3)
    by (subst getNodePortIPAddress_loop.simps) (simp add: answer_def poll_events_snoc del: poll_events.simps)
  finally show ?thesis .
qed

lemma np_timeout:
  assumes "\<forall>k<10. np_pending (answer w ns svc tr k)"
  shows "getNodePortIPAddress w ns svc tr =
           (Inl (ServiceTimeout svc ns), tr @ poll_events w ns svc (length tr) 10)"
proof -
  have "getNodePortIPAddress w ns svc tr =
          getNodePortIPAddress_loop w ns svc 10 (tr @ poll_events w ns svc (length tr) 10)"
    unfolding getNodePortIPAddress_def using np_skip [of 0 10 w ns svc tr] assms by simp
  also have "\<dots> = (Inl (ServiceTimeout svc ns), tr @ poll_events w ns svc (length tr) 10)"
    by (subst getNodePortIPAddress_loop.simps) simp
  finally show ?thesis .
qed

lemma np_bounded:
  "\<exists>n\<le>10. snd (getNodePortIPAddress w ns svc tr) = tr @ poll_events w ns svc (length tr) n"
proof -
  let ?P = "\<lambda>k. np_pending (answer w ns svc tr k)"
  from first_decisive [of 10 ?P] show ?thesis
  proof
    assume "\<forall>k<10. ?P k"
    from np_timeout [OF this] show ?thesis by (intro exI [of _ 10]) simp
  next
    assume "\<exists>n<10. \<not> ?P n \<and> (\<forall>k<n. ?P k)"
    then obtain n where n: "n < 10" "\<not> ?P n" "\<forall>k<n. ?P k" by blast
    show ?thesis
    proof (cases "answer w ns svc tr n")
      case (Inl e)
      from np_error [OF n(1) n(3) Inl] n(1) show ?thesis by (intro exI [of _ "Suc n"]) simp
    next
      case (Inr s)
      with n(2) have "\<not> EqualFold (ClusterIP s) []" by (simp add: np_pending_def)
      from np_found [OF n(1) n(3) Inr this] n(1) show ?thesis by (intro exI [of _ "Suc n"]) simp
    qed
  qed
qed

section \<open>Lemmas: \<^verbatim>\<open>DeleteHub\<close>\<close>

lemma DeleteHub_loop_ext:
  "DeleteHub_loop w ns fuel tr = Some (out, tr') \<Longrightarrow>
   \<exists>p err ext. tr' = tr @ EvGetNamespace ns p err # ext \<and> (\<forall>ev\<in>set ext. loop_event ev)"
proof (induction fuel arbitrary: tr)
  case 0
  then show ?case by simp
next
  case (Suc fuel)
  obtain p err where g: "GetNamespace w (length tr) ns = (p, err)"
    by (cases "GetNamespace w (length tr) ns")
  show ?case
  proof (cases p)
    case None
    with Suc.prems g show ?thesis by auto
  next
    case (Some status)
    show ?thesis
    proof (cases err)
      case None
      let ?tr3 = "tr @ [EvGetNamespace ns (Some status) None,
                        EvLogInfo (''namespace status: '' @ status), EvSleep 10]"
      from Suc.prems g Some None have "DeleteHub_loop w ns fuel ?tr3 = Some (out, tr')" by simp
      from Suc.IH [OF this] obtain p' err' ext
        where "tr' = ?tr3 @ EvGetNamespace ns p' err' # ext" "\<forall>ev\<in>set ext. loop_event ev" by blast
      then show ?thesis
        by (intro exI [of _ "Some status"] exI [of _ None]
              exI [of _ "[EvLogInfo (''namespace status: '' @ status), EvSleep 10]
                          @ EvGetNamespace ns p' err' # ext"]) simp
    next
      case (Some e)
      with Suc.prems g \<open>p = Some status\<close> show ?thesis by auto
    qed
  qed
qed

lemma DeleteHub_eq:
  "DeleteHub w ns fuel tr =
     (case DeleteHub_namespace w ns fuel (tr @ [EvLogInfo ''Deleting hub'']) of
        None \<Rightarrow> None
      | Some (Panicked, tr1) \<Rightarrow> Some (Panicked, tr1)
      | Some (Returned u, tr1) \<Rightarrow> Some (Returned None, tr1 @ cleanup_events w ns (length tr1)))"
  by (simp add: DeleteHub_def cleanup_events_def Let_def split: option.splits outcome.splits prod.splits)

lemma DeleteHub_shape:
  assumes "DeleteHub w ns fuel tr = Some (out, tr')"
  shows "\<exists>p err. GetNamespace w (Suc (length tr)) ns = (p, err) \<and>
     (case err of
        Some e \<Rightarrow>
          (let pre = tr @ [EvLogInfo ''Deleting hub'', EvGetNamespace ns p (Some e),
                          EvLogError ''unable to find the namespace'']
           in out = Returned None \<and> tr' = pre @ cleanup_events w ns (length pre))
      | None \<Rightarrow>
          (\<exists>r lp. (\<forall>ev\<in>set lp. loop_event ev) \<and> (\<exists>ev\<in>set lp. is_lookup ev) \<and>
             (let pre = tr @ [EvLogInfo ''Deleting hub'', EvGetNamespace ns p None, EvDeleteNamespace ns r]
                          @ (case r of Some e \<Rightarrow> [EvLogError ''unable to delete the namespace''] | None \<Rightarrow> [])
                          @ lp
              in (out = Panicked \<and> tr' = pre)
                 \<or> (out = Returned None \<and> tr' = pre @ cleanup_events w ns (length pre)))))"
proof -
  obtain p err where g: "GetNamespace w (Suc (length tr)) ns = (p, err)"
    by (cases "GetNamespace w (Suc (length tr)) ns")
  show ?thesis
  proof (cases err)
    case (Some e)
    with assms g show ?thesis
      by (auto simp: DeleteHub_eq DeleteHub_namespace_def Let_def)
  next
    case None
    define r where "r = DeleteNamespace w (Suc (Suc (length tr))) ns"
    define tr3 where "tr3 = tr @ [EvLogInfo ''Deleting hub'', EvGetNamespace ns p None, EvDeleteNamespace ns r]
                          @ (case r of Some e \<Rightarrow> [EvLogError ''unable to delete the namespace''] | None \<Rightarrow> [])"
    have ns_eq: "DeleteHub_namespace w ns fuel (tr @ [EvLogInfo ''Deleting hub'']) = DeleteHub_loop w ns fuel tr3"
      using g None by (simp add: DeleteHub_namespace_def r_def tr3_def Let_def split: option.splits)
    from assms obtain o1 tr1 where l: "DeleteHub_loop w ns fuel tr3 = Some (o1, tr1)"
      unfolding DeleteHub_eq ns_eq by (auto split: option.splits)
    from DeleteHub_loop_ext [OF l] obtain p' err' ext
      where ext: "tr1 = tr3 @ EvGetNamespace ns p' err' # ext" "\<forall>ev\<in>set ext. loop_event ev" by blast
    define lp where "lp = EvGetNamespace ns p' err' # ext"
    from ext have lp: "tr1 = tr3 @ lp" "\<forall>ev\<in>set lp. loop_event ev" "\<exists>ev\<in>set lp. is_lookup ev"
      by (auto simp: lp_def)
    have "(out = Panicked \<and> tr' = tr1) \<or> (out = Returned None \<and> tr' = tr1 @ cleanup_events w ns (length tr1))"
      using assms l unfolding DeleteHub_eq ns_eq
      by (cases o1) auto
    with lp g None show ?thesis
      by (auto simp: tr3_def Let_def intro!: exI [of _ r] exI [of _ lp])
  qed
qed


lemma cleanup_events_attempts:
  "\<exists>r. EvDeletePersistentVolume ns r \<in> set (cleanup_events w ns t)"
  "\<exists>r. EvDeleteClusterRoleBinding ns r \<in> set (cleanup_events w ns t)"
  by (auto simp: cleanup_events_def Let_def split: option.splits)

lemma cleanup_events_logged:
  "EvDeletePersistentVolume ns (Some e) \<in> set (cleanup_events w ns t) \<Longrightarrow>
     EvLogError ''unable to delete the pv'' \<in> set (cleanup_events w ns t)"
  "EvDeleteClusterRoleBinding ns (Some e) \<in> set (cleanup_events w ns t) \<Longrightarrow>
     EvLogError ''unable to delete the cluster role binding'' \<in> set (cleanup_events w ns t)"
  by (auto simp: cleanup_events_def Let_def split: option.splits)

lemma cleanup_events_others:
  "EvDeleteNamespace ns r \<notin> set (cleanup_events w ns t)"
  by (auto simp: cleanup_events_def Let_def split: option.splits)

lemma loop_event_others:
  "\<forall>ev\<in>set lp. loop_event ev \<Longrightarrow>
     EvDeleteNamespace ns r \<notin> set lp \<and> EvDeletePersistentVolume ns r \<notin> set lp
     \<and> EvDeleteClusterRoleBinding ns r \<notin> set lp"
  by auto

lemma filter_lookup_nonempty:
  "\<exists>ev\<in>set lp. is_lookup ev \<Longrightarrow> 1 \<le> length (filter is_lookup lp)"
  by (induction lp) auto

text \<open>The wait loop of lines 79-88, lookup by lookup.\<close>

lemma length_wait_events [simp]: "length (wait_events w ns t n) = 3 * n"
  by (induction n arbitrary: t) auto

lemma wait_events_snoc:
  "wait_events w ns t (Suc n) =
     wait_events w ns t n
       @ [EvGetNamespace ns (fst (GetNamespace w (t + 3 * n) ns)) (snd (GetNamespace w (t + 3 * n) ns)),
          EvLogInfo (''namespace status: ''
                     @ (case fst (GetNamespace w (t + 3 * n) ns) of Some status \<Rightarrow> status | None \<Rightarrow> [])),
          EvSleep 10]"
  by (induction n arbitrary: t) (auto simp: numeral_3_eq_3)

lemma DeleteHub_loop_skip:
  "n \<le> fuel \<Longrightarrow> \<forall>k<n. \<exists>s. wait_answer w ns tr k = (Some s, None) \<Longrightarrow>
   DeleteHub_loop w ns fuel tr = DeleteHub_loop w ns (fuel - n) (tr @ wait_events w ns (length tr) n)"
proof (induction n arbitrary: fuel tr)
  case 0
  then show ?case by simp
next
  case (Suc n)
  from Suc.prems(1) obtain f where f: "fuel = Suc f" "n \<le> f" by (cases fuel) auto
  from Suc.prems(2) [rule_format, of 0] obtain s0 where s0: "GetNamespace w (length tr) ns = (Some s0, None)"
    by (auto simp: wait_answer_def)
  let ?tr3 = "tr @ wait_events w ns (length tr) 1"
  have step: "DeleteHub_loop w ns fuel tr = DeleteHub_loop w ns f ?tr3"
    using f(1) s0 by simp
  have pk: "\<forall>k<n. \<exists>s. wait_answer w ns ?tr3 k = (Some s, None)"
  proof (intro allI impI)
    fix k assume "k < n"
    then show "\<exists>s. wait_answer w ns ?tr3 k = (Some s, None)"
      using Suc.prems(2) [rule_format, of "Suc k"] by (simp add: wait_answer_def numeral_3_eq_3)
  qed
  from Suc.IH [OF f(2) pk] show ?case
    unfolding step using f(1) s0 by (simp add: numeral_3_eq_3)
qed

lemma DeleteHub_loop_returned:
  assumes "n < fuel" "\<forall>k<n. \<exists>s. wait_answer w ns tr k = (Some s, None)"
    "wait_answer w ns tr n = (Some s, Some e)"
  shows "DeleteHub_loop w ns fuel tr =
           Some (Returned (),
                 tr @ wait_events w ns (length tr) n
                    @ [EvGetNamespace ns (Some s) (Some e), EvLogInfo (''namespace status: '' @ s),
                       EvSleep 10, EvLogInfo ''deleted the namespace''])"
proof -
  from assms(1) obtain f where f: "fuel - n = Suc f" by (cases "fuel - n") auto
  have "DeleteHub_loop w ns fuel tr =
      DeleteHub_loop w ns (Suc f) (tr @ wait_events w ns (length tr) n)"
    using DeleteHub_loop_skip [of n fuel w ns tr] assms(1,2) f by simp
  also have "\<dots> = Some (Returned (),
                 tr @ wait_events w ns (length tr) n
                    @ [EvGetNamespace ns (Some s) (Some e), EvLogInfo (''namespace status: '' @ s),
                       EvSleep 10, EvLogInfo ''deleted the namespace''])"
    using assms(3) by (simp add: wait_answer_def)
  finally show ?thesis .
qed

lemma DeleteHub_loop_waiting:
  assumes "\<forall>k<fuel. \<exists>s. wait_answer w ns tr k = (Some s, None)"
  shows "DeleteHub_loop w ns fuel tr = None"
  using DeleteHub_loop_skip [of fuel fuel w ns tr] assms by simp

lemma DeleteHub_loop_returns_suffix:
  "DeleteHub_loop w ns fuel tr = Some (Returned u, tr') \<Longrightarrow>
   \<exists>s e. suffix [EvGetNamespace ns (Some s) (Some e), EvLogInfo (''namespace status: '' @ s),
                  EvSleep 10, EvLogInfo ''deleted the namespace''] tr'"
proof (induction fuel arbitrary: tr)
  case 0
  then show ?case by simp
next
  case (Suc fuel)
  obtain p err where g: "GetNamespace w (length tr) ns = (p, err)"
    by (cases "GetNamespace w (length tr) ns")
  show ?case
  proof (cases p)
    case None
    with Suc.prems g show ?thesis by simp
  next
    case (Some status)
    show ?thesis
    proof (cases err)
      case None
      with Suc.prems g Some show ?thesis using Suc.IH by simp
    next
      case (Some e)
      with Suc.prems g \<open>p = Some status\<close>
      have "tr' = tr @ [EvGetNamespace ns (Some status) (Some e),
          EvLogInfo (''namespace status: '' @ status), EvSleep 10, EvLogInfo ''deleted the namespace'']"
        by auto
      then show ?thesis
        by (intro exI [of _ status] exI [of _ e]) (simp add: suffix_def)
    qed
  qed
qed

lemma DeleteHub_loop_no_panic:
  "\<forall>t. fst (GetNamespace w t ns) \<noteq> None \<Longrightarrow> DeleteHub_loop w ns fuel tr \<noteq> Some (Panicked, tr')"
proof (induction fuel arbitrary: tr)
  case 0
  then show ?case by simp
next
  case (Suc fuel)
  obtain p err where g: "GetNamespace w (length tr) ns = (p, err)"
    by (cases "GetNamespace w (length tr) ns")
  with Suc.prems [rule_format, of "length tr"] obtain s where "p = Some s" by auto
  with g show ?case using Suc.IH [OF Suc.prems] by (cases err) simp_all
qed

lemma DeleteHub_loop_None_iff:
  assumes "\<forall>t. fst (GetNamespace w t ns) \<noteq> None"
  shows "DeleteHub_loop w ns fuel tr = None \<longleftrightarrow> (\<forall>k<fuel. snd (wait_answer w ns tr k) = None)"
proof -
  let ?P = "\<lambda>k. snd (wait_answer w ns tr k) = None"
  have pass: "?P k \<Longrightarrow> \<exists>s. wait_answer w ns tr k = (Some s, None)" for k
    using assms [rule_format, of "length tr + 3 * k"]
    by (cases "wait_answer w ns tr k") (auto simp: wait_answer_def)
  from first_decisive [of fuel ?P] show ?thesis
  proof
    assume a: "\<forall>k<fuel. ?P k"
    then have "\<forall>k<fuel. \<exists>s. wait_answer w ns tr k = (Some s, None)" using pass by blast
    from DeleteHub_loop_waiting [OF this] a show ?thesis by simp
  next
    assume "\<exists>n<fuel. \<not> ?P n \<and> (\<forall>k<n. ?P k)"
    then obtain n where n: "n < fuel" "\<not> ?P n" "\<forall>k<n. ?P k" by blast
    from n(3) have p: "\<forall>k<n. \<exists>s. wait_answer w ns tr k = (Some s, None)" using pass by blast
    from n(2) assms [rule_format, of "length tr + 3 * n"]
    obtain s e where "wait_answer w ns tr n = (Some s, Some e)"
      by (cases "wait_answer w ns tr n") (auto simp: wait_answer_def)
    from DeleteHub_loop_returned [OF n(1) p this] n(1,2) show ?thesis by auto
  qed
qed

lemma DeleteHub_loop_panicked:
  assumes "n < fuel" "\<forall>k<n. \<exists>s. wait_answer w ns tr k = (Some s, None)"
    "fst (wait_answer w ns tr n) = None"
  shows "DeleteHub_loop w ns fuel tr =
           Some (Panicked,
                 tr @ wait_events w ns (length tr) n
                    @ [EvGetNamespace ns None (snd (wait_answer w ns tr n))])"
proof -
  from assms(1) obtain f where f: "fuel - n = Suc f" by (cases "fuel - n") auto
  have "DeleteHub_loop w ns fuel tr =
      DeleteHub_loop w ns (Suc f) (tr @ wait_events w ns (length tr) n)"
    using DeleteHub_loop_skip [of n fuel w ns tr] assms(1,2) f by simp
  also have "\<dots> = Some (Panicked,
                 tr @ wait_events w ns (length tr) n
                    @ [EvGetNamespace ns None (snd (wait_answer w ns tr n))])"
    using assms(3) by (cases "wait_answer w ns tr n") (simp add: wait_answer_def)
  finally show ?thesis .
qed

lemma DeleteHub_loop_Panicked_iff:
  "DeleteHub_loop w ns fuel tr = Some (Panicked, tr') \<longleftrightarrow>
     (\<exists>n<fuel. (\<forall>k<n. \<exists>s. wait_answer w ns tr k = (Some s, None))
        \<and> fst (wait_answer w ns tr n) = None
        \<and> tr' = tr @ wait_events w ns (length tr) n
                    @ [EvGetNamespace ns None (snd (wait_answer w ns tr n))])"
  (is "?L \<longleftrightarrow> ?R")
proof
  assume ?R
  then show ?L using DeleteHub_loop_panicked by blast
next
  assume l: ?L
  let ?P = "\<lambda>k. \<exists>s. wait_answer w ns tr k = (Some s, None)"
  from first_decisive [of fuel ?P] show ?R
  proof
    assume "\<forall>k<fuel. ?P k"
    from DeleteHub_loop_waiting [OF this] l show ?R by simp
  next
    assume "\<exists>n<fuel. \<not> ?P n \<and> (\<forall>k<n. ?P k)"
    then obtain n where n: "n < fuel" "\<not> ?P n" "\<forall>k<n. ?P k" by blast
    show ?R
    proof (cases "fst (wait_answer w ns tr n)")
      case None
      from DeleteHub_loop_panicked [OF n(1) n(3) None] l n(1) n(3) None show ?R by auto
    next
      case (Some s)
      with n(2) obtain e where "wait_answer w ns tr n = (Some s, Some e)"
        by (cases "wait_answer w ns tr n") auto
      from DeleteHub_loop_returned [OF n(1) n(3) this] l show ?R by simp
    qed
  qed
qed

text \<open>\<^verbatim>\<open>DeleteHub\<close> on a cluster whose lookups always hand back a namespace object.\<close>

lemma DeleteHub_namespace_eq:
  "DeleteHub_namespace w ns fuel (tr @ [EvLogInfo ''Deleting hub'']) =
     (case GetNamespace w (Suc (length tr)) ns of
        (p, Some e) \<Rightarrow>
          Some (Returned (), tr @ [EvLogInfo ''Deleting hub'', EvGetNamespace ns p (Some e),
                                   EvLogError ''unable to find the namespace''])
      | (p, None) \<Rightarrow>
          (let r = DeleteNamespace w (Suc (Suc (length tr))) ns
           in DeleteHub_loop w ns fuel
                (tr @ [EvLogInfo ''Deleting hub'', EvGetNamespace ns p None, EvDeleteNamespace ns r]
                    @ (case r of Some e \<Rightarrow> [EvLogError ''unable to delete the namespace'']
                       | None \<Rightarrow> []))))"
  by (simp add: DeleteHub_namespace_def Let_def split: prod.splits option.splits)

lemma DeleteHub_no_panic:
  assumes "\<forall>t. fst (GetNamespace w t ns) \<noteq> None"
  shows "DeleteHub w ns fuel tr \<noteq> Some (Panicked, tr')"
proof
  assume a: "DeleteHub w ns fuel tr = Some (Panicked, tr')"
  then have "DeleteHub_namespace w ns fuel (tr @ [EvLogInfo ''Deleting hub'']) = Some (Panicked, tr')"
    by (auto simp: DeleteHub_eq split: option.splits outcome.splits prod.splits)
  then obtain tr0 where "DeleteHub_loop w ns fuel tr0 = Some (Panicked, tr')"
    by (auto simp: DeleteHub_namespace_eq Let_def split: prod.splits option.splits)
  with DeleteHub_loop_no_panic [OF assms] show False by blast
qed

lemma DeleteHub_None_iff:
  assumes "\<forall>t. fst (GetNamespace w t ns) \<noteq> None"
  shows "DeleteHub w ns fuel tr = None \<longleftrightarrow>
     snd (GetNamespace w (Suc (length tr)) ns) = None
     \<and> (\<forall>k<fuel. snd (GetNamespace w (loop_start w ns tr + 3 * k) ns) = None)"
proof -
  obtain p err where g: "GetNamespace w (Suc (length tr)) ns = (p, err)"
    by (cases "GetNamespace w (Suc (length tr)) ns")
  define r where "r = DeleteNamespace w (Suc (Suc (length tr))) ns"
  define tr3 where "tr3 = tr @ [EvLogInfo ''Deleting hub'', EvGetNamespace ns p None, EvDeleteNamespace ns r]
                        @ (case r of Some e \<Rightarrow> [EvLogError ''unable to delete the namespace''] | None \<Rightarrow> [])"
  have len: "length tr3 = loop_start w ns tr"
    by (simp add: tr3_def loop_start_def r_def split: option.splits)
  have n: "DeleteHub w ns fuel tr = None \<longleftrightarrow>
      DeleteHub_namespace w ns fuel (tr @ [EvLogInfo ''Deleting hub'']) = None"
    by (auto simp: DeleteHub_eq split: option.splits outcome.splits prod.splits)
  show ?thesis
  proof (cases err)
    case (Some e)
    with g show ?thesis unfolding n by (simp add: DeleteHub_namespace_eq)
  next
    case None
    with g have "DeleteHub_namespace w ns fuel (tr @ [EvLogInfo ''Deleting hub'']) =
        DeleteHub_loop w ns fuel tr3"
      by (simp add: DeleteHub_namespace_eq Let_def tr3_def r_def)
    with DeleteHub_loop_None_iff [OF assms, of fuel tr3] g None show ?thesis
      unfolding n by (simp add: wait_answer_def len)
  qed
qed

lemma DeleteHub_returned_shape:
  assumes obj: "\<forall>t. fst (GetNamespace w t ns) \<noteq> None"
    and a: "DeleteHub w ns fuel tr = Some (out, tr')"
  shows "\<exists>pre. out = Returned None \<and> tr' = tr @ pre @ cleanup_events w ns (length tr + length pre)
           \<and> (\<forall>r. EvDeletePersistentVolume ns r \<notin> set pre \<and> EvDeleteClusterRoleBinding ns r \<notin> set pre)
           \<and> (\<forall>e. EvDeleteNamespace ns (Some e) \<in> set pre \<longrightarrow>
                EvLogError ''unable to delete the namespace'' \<in> set pre
                \<and> 2 \<le> length (filter is_lookup pre))"
proof -
  from DeleteHub_shape [OF a] obtain p err where g: "GetNamespace w (Suc (length tr)) ns = (p, err)"
    and sh: "(case err of
        Some e \<Rightarrow>
          (let pre = tr @ [EvLogInfo ''Deleting hub'', EvGetNamespace ns p (Some e),
                          EvLogError ''unable to find the namespace'']
           in out = Returned None \<and> tr' = pre @ cleanup_events w ns (length pre))
      | None \<Rightarrow>
          (\<exists>r lp. (\<forall>ev\<in>set lp. loop_event ev) \<and> (\<exists>ev\<in>set lp. is_lookup ev) \<and>
             (let pre = tr @ [EvLogInfo ''Deleting hub'', EvGetNamespace ns p None, EvDeleteNamespace ns r]
                          @ (case r of Some e \<Rightarrow> [EvLogError ''unable to delete the namespace''] | None \<Rightarrow> [])
                          @ lp
              in (out = Panicked \<and> tr' = pre)
                 \<or> (out = Returned None \<and> tr' = pre @ cleanup_events w ns (length pre)))))"
    by blast
  from a DeleteHub_no_panic [OF obj, of fuel tr tr'] have np: "out \<noteq> Panicked" by auto
  show ?thesis
  proof (cases err)
    case (Some e')
    let ?pre = "[EvLogInfo ''Deleting hub'', EvGetNamespace ns p (Some e'),
                 EvLogError ''unable to find the namespace'']"
    from sh Some have "out = Returned None" "tr' = tr @ ?pre @ cleanup_events w ns (length tr + length ?pre)"
      by (simp_all add: Let_def numeral_3_eq_3)
    then show ?thesis
      by (intro exI [of _ ?pre]) simp
  next
    case None
    with sh obtain r lp where lp: "\<forall>ev\<in>set lp. loop_event ev" "\<exists>ev\<in>set lp. is_lookup ev"
      and d: "(let pre = tr @ [EvLogInfo ''Deleting hub'', EvGetNamespace ns p None, EvDeleteNamespace ns r]
                          @ (case r of Some e \<Rightarrow> [EvLogError ''unable to delete the namespace''] | None \<Rightarrow> [])
                          @ lp
              in (out = Panicked \<and> tr' = pre)
                 \<or> (out = Returned None \<and> tr' = pre @ cleanup_events w ns (length pre)))"
      by auto
    define pre where "pre = [EvLogInfo ''Deleting hub'', EvGetNamespace ns p None, EvDeleteNamespace ns r]
                          @ (case r of Some e \<Rightarrow> [EvLogError ''unable to delete the namespace''] | None \<Rightarrow> [])
                          @ lp"
    from d np have d': "out = Returned None" "tr' = tr @ pre @ cleanup_events w ns (length tr + length pre)"
      by (simp_all add: Let_def pre_def)
    have pre_del: "EvDeleteNamespace ns (Some e) \<in> set pre \<Longrightarrow>
        EvLogError ''unable to delete the namespace'' \<in> set pre" for e
      using loop_event_others [OF lp(1), of ns "Some e"] by (auto simp: pre_def split: option.splits)
    have pre_look: "2 \<le> length (filter is_lookup pre)"
      using filter_lookup_nonempty [OF lp(2)] by (simp add: pre_def)
    have pre_none: "EvDeletePersistentVolume ns x \<notin> set pre \<and> EvDeleteClusterRoleBinding ns x \<notin> set pre" for x
      using loop_event_others [OF lp(1), of ns x] by (auto simp: pre_def split: option.splits)
    from d' pre_del pre_look pre_none show ?thesis
      by (intro exI [of _ pre]) blast
  qed
qed

section \<open>Lemmas: the credential loop of \<^verbatim>\<open>initPostgres\<close>\<close>

lemma length_retry_events [simp]: "length (retry_events w ns t n) = 3 * n"
  by (induction n arbitrary: t) auto

lemma count_retry_events [simp]: "length (filter is_fetch (retry_events w ns t n)) = n"
  by (induction n arbitrary: t) auto

lemma retry_events_kinds:
  "ev \<in> set (retry_events w ns t n) \<Longrightarrow>
     is_fetch ev \<or> ev = EvLogInfo ''unable to init database, sleeping 5 seconds'' \<or> ev = EvSleep 5"
  by (induction n arbitrary: t) auto

lemma initPostgres_loop_skip:
  "i + n \<le> 2147483647 \<Longrightarrow> \<forall>k<n. snd (fetch_answer w hc tr k) \<noteq> None \<Longrightarrow>
   initPostgres_loop w hc i pw tr =
     initPostgres_loop w hc (i + n) (if n = 0 then pw else fst (fetch_answer w hc tr (n - 1)))
       (tr @ retry_events w (Config_Namespace hc) (length tr) n)"
proof (induction n arbitrary: i pw tr)
  case 0
  then show ?case by simp
next
  case (Suc n)
  obtain pw0 e0 where g: "GetDefaultPasswords w (length tr) (Config_Namespace hc) = (pw0, Some e0)"
    using Suc.prems(2) [rule_format, of 0]
    by (cases "GetDefaultPasswords w (length tr) (Config_Namespace hc)") (auto simp: fetch_answer_def)
  let ?tr3 = "tr @ [EvGetDefaultPasswords (Config_Namespace hc) pw0 (Some e0),
                    EvLogInfo ''unable to init database, sleeping 5 seconds'', EvSleep 5]"
  have step: "initPostgres_loop w hc i pw tr = initPostgres_loop w hc (Suc i) pw0 ?tr3"
    using Suc.prems(1) g by (subst initPostgres_loop.simps) simp
  have shift: "fetch_answer w hc ?tr3 k = fetch_answer w hc tr (Suc k)" for k
    by (simp add: fetch_answer_def numeral_3_eq_3)
  have pk: "\<forall>k<n. snd (fetch_answer w hc ?tr3 k) \<noteq> None"
    using Suc.prems(2) by (simp add: shift)
  have "Suc i + n \<le> 2147483647" using Suc.prems(1) by simp
  from Suc.IH [OF this pk, of pw0]
  have ih: "initPostgres_loop w hc (Suc i) pw0 ?tr3 =
      initPostgres_loop w hc (Suc i + n) (if n = 0 then pw0 else fst (fetch_answer w hc ?tr3 (n - 1)))
        (?tr3 @ retry_events w (Config_Namespace hc) (length ?tr3) n)" .
  have pw_eq: "(if n = 0 then pw0 else fst (fetch_answer w hc ?tr3 (n - 1))) = fst (fetch_answer w hc tr n)"
    using g by (cases n) (simp_all add: shift, simp add: fetch_answer_def)
  show ?case
    unfolding step ih pw_eq using g by (simp add: numeral_3_eq_3)
qed

lemma initPostgres_loop_found:
  assumes "n < 2147483647" "\<forall>k<n. snd (fetch_answer w hc tr k) \<noteq> None"
    "fetch_answer w hc tr n = (pw', None)"
  shows "initPostgres_loop w hc 0 pw tr =
           (pw', tr @ retry_events w (Config_Namespace hc) (length tr) n
                    @ [EvGetDefaultPasswords (Config_Namespace hc) pw' None])"
proof -
  have "initPostgres_loop w hc 0 pw tr =
      initPostgres_loop w hc n (if n = 0 then pw else fst (fetch_answer w hc tr (n - 1)))
        (tr @ retry_events w (Config_Namespace hc) (length tr) n)"
    using initPostgres_loop_skip [of 0 n w hc tr pw] assms(1,2) by simp
  also have "\<dots> = (pw', tr @ retry_events w (Config_Namespace hc) (length tr) n
                    @ [EvGetDefaultPasswords (Config_Namespace hc) pw' None])"
    using assms(1,3) by (subst initPostgres_loop.simps) (simp add: fetch_answer_def)
  finally show ?thesis .
qed

lemma initPostgres_loop_exhausted:
  assumes "\<forall>k<2147483647. snd (fetch_answer w hc tr k) \<noteq> None"
  shows "initPostgres_loop w hc 0 pw tr =
           (fst (fetch_answer w hc tr 2147483646),
            tr @ retry_events w (Config_Namespace hc) (length tr) 2147483647)"
proof -
  have "initPostgres_loop w hc 0 pw tr =
      initPostgres_loop w hc 2147483647 (fst (fetch_answer w hc tr 2147483646))
        (tr @ retry_events w (Config_Namespace hc) (length tr) 2147483647)"
    using initPostgres_loop_skip [of 0 2147483647 w hc tr pw] assms by simp
  also have "\<dots> = (fst (fetch_answer w hc tr 2147483646),
            tr @ retry_events w (Config_Namespace hc) (length tr) 2147483647)"
    by (subst initPostgres_loop.simps) simp
  finally show ?thesis .
qed

lemma initPostgres_loop_ext:
  "\<exists>ext. snd (initPostgres_loop w hc 0 pw tr) = tr @ ext
     \<and> length (filter is_fetch ext) \<le> 2147483647
     \<and> (\<forall>ev\<in>set ext. is_fetch ev \<or> ev = EvLogInfo ''unable to init database, sleeping 5 seconds''
                          \<or> ev = EvSleep 5)"
proof -
  let ?P = "\<lambda>k. snd (fetch_answer w hc tr k) \<noteq> None"
  from first_decisive [of 2147483647 ?P] show ?thesis
  proof
    assume "\<forall>k<2147483647. ?P k"
    from initPostgres_loop_exhausted [OF this, of pw] show ?thesis
      by (intro exI [of _ "retry_events w (Config_Namespace hc) (length tr) 2147483647"])
         (auto dest: retry_events_kinds)
  next
    assume "\<exists>n<2147483647. \<not> ?P n \<and> (\<forall>k<n. ?P k)"
    then obtain n where n: "n < 2147483647" "\<not> ?P n" "\<forall>k<n. ?P k" by blast
    from n(2) obtain pw' where "fetch_answer w hc tr n = (pw', None)"
      by (cases "fetch_answer w hc tr n") auto
    from initPostgres_loop_found [OF n(1) n(3) this, of pw] n(1) show ?thesis
      by (intro exI [of _ "retry_events w (Config_Namespace hc) (length tr) n
                    @ [EvGetDefaultPasswords (Config_Namespace hc) pw' None]"])
         (auto dest: retry_events_kinds)
  qed
qed


section \<open>Lemmas: \<^verbatim>\<open>Start\<close> and \<^verbatim>\<open>Stop\<close>\<close>


lemma undeploys_append [simp]: "undeploys (xs @ ys) = undeploys xs @ undeploys ys"
  by (induction xs rule: undeploys.induct) auto

lemma initPostgres_ext:
  "\<exists>ext. snd (initPostgres w hc createHub tr) = tr @ ext
     \<and> (\<forall>ev\<in>set ext. init_event ev \<and> \<not> is_apply ev) \<and> (\<exists>ev\<in>set ext. is_db_wait ev)"
proof -
  from initPostgres_loop_ext [of w hc "([], [], [])" tr] obtain lext
    where l: "snd (initPostgres_loop w hc 0 ([], [], []) tr) = tr @ lext"
      "\<forall>ev\<in>set lext. is_fetch ev \<or> ev = EvLogInfo ''unable to init database, sleeping 5 seconds''
                          \<or> ev = EvSleep 5"
    by blast
  have k: "\<forall>ev\<in>set lext. init_event ev \<and> \<not> is_apply ev"
  proof
    fix ev assume "ev \<in> set lext"
    with l(2) have "is_fetch ev \<or> ev = EvLogInfo ''unable to init database, sleeping 5 seconds''
                          \<or> ev = EvSleep 5" by blast
    then show "init_event ev \<and> \<not> is_apply ev" by (cases ev) auto
  qed
  obtain pw tr1 where p: "initPostgres_loop w hc 0 ([], [], []) tr = (pw, tr1)"
    by (cases "initPostgres_loop w hc 0 ([], [], []) tr")
  with l have tr1: "tr1 = tr @ lext" by simp
  define r where "r = WaitForServiceEndpointReady w (length tr1) (Namespace createHub) ''postgres''"
  have "\<exists>rest. snd (initPostgres w hc createHub tr) =
          tr1 @ EvWaitForServiceEndpointReady (Namespace createHub) ''postgres'' r # rest
        \<and> (\<forall>ev\<in>set rest. init_event ev \<and> \<not> is_apply ev)"
    using p by (auto simp: initPostgres_def r_def Let_def split: option.splits sum.splits)
  then obtain rest where rest: "snd (initPostgres w hc createHub tr) =
          tr1 @ EvWaitForServiceEndpointReady (Namespace createHub) ''postgres'' r # rest"
     "\<forall>ev\<in>set rest. init_event ev \<and> \<not> is_apply ev" by blast
  show ?thesis
    using rest k tr1
    by (intro exI [of _ "lext @ EvWaitForServiceEndpointReady (Namespace createHub) ''postgres'' r # rest"])
       auto
qed


lemma init_attempted_simps [simp]:
  "init_attempted [] = False"
  "init_attempted (ev # evs) = (is_db_wait ev \<or> init_attempted evs)"
  "init_attempted (xs @ ys) = (init_attempted xs \<or> init_attempted ys)"
  by (auto simp: init_attempted_def)

lemma init_attempted_iff: "init_attempted ext \<longleftrightarrow> (\<exists>ev\<in>set ext. is_db_wait ev)"
  by (simp add: init_attempted_def list_ex_iff)

lemma Start_postgres_shape:
  "\<exists>ext. snd (Start_postgres w hc createHub tr) = tr @ ext
     \<and> (\<forall>ev\<in>set ext. postgres_event ev)
     \<and> (init_attempted ext \<longleftrightarrow>
          ExternalPostgres createHub = None \<and> EvRun PostgresBatch None \<in> set ext
          \<and> database_gate createHub)"
proof (cases "ExternalPostgres createHub = None \<and> getPostgresDeployer w createHub = Inr PostgresBatch
    \<and> Run w (length tr) PostgresBatch = None \<and> database_gate createHub")
  case True
  let ?tr1 = "tr @ [EvRun PostgresBatch None]"
  from True have eq: "Start_postgres w hc createHub tr = initPostgres w hc createHub ?tr1"
    by (simp add: Start_postgres_def database_gate_def)
  from initPostgres_ext [of w hc createHub ?tr1] obtain iext
    where i: "snd (initPostgres w hc createHub ?tr1) = ?tr1 @ iext"
      "\<forall>ev\<in>set iext. init_event ev \<and> \<not> is_apply ev" "\<exists>ev\<in>set iext. is_db_wait ev"
    by blast
  have "\<forall>ev\<in>set iext. postgres_event ev"
  proof
    fix ev assume "ev \<in> set iext"
    with i(2) have "init_event ev \<and> \<not> is_apply ev" by blast
    then show "postgres_event ev" by (cases ev) auto
  qed
  with i True show ?thesis
    unfolding eq by (intro exI [of _ "EvRun PostgresBatch None # iext"]) (auto simp: init_attempted_iff)
next
  case False
  then show ?thesis
    by (auto simp: Start_postgres_def getPostgresDeployer_def database_gate_def Let_def
          split: option.splits sum.splits)
qed


lemma postgres_event_facts:
  "postgres_event ev \<Longrightarrow> start_event ev \<and> (\<forall>x. ev \<noteq> EvRun ConfigBatch x)"
  by (cases ev) auto

lemma Start_shape:
  "\<exists>ext. snd (Start w hc createHub tr) = tr @ ext
     \<and> (\<forall>ev\<in>set ext. start_event ev)
     \<and> (\<forall>e. EvRun ConfigBatch (Some e) \<in> set ext \<longrightarrow>
          fst (Start w hc createHub tr) = Some e \<and> last ext = EvRun ConfigBatch (Some e))
     \<and> (init_attempted ext \<longleftrightarrow>
          ExternalPostgres createHub = None \<and> EvRun PostgresBatch None \<in> set ext
          \<and> database_gate createHub)
     \<and> (NewDeployer w = None \<longrightarrow>
          (\<exists>pw r. EvGetDefaultPasswords (Config_Namespace hc) pw r \<in> set ext))"
proof (cases "NewDeployer w")
  case (Some err)
  then show ?thesis by (simp add: Start_def getHubConfigDeployer_def)
next
  case None
  obtain pw err where g: "GetDefaultPasswords w (length tr) (Config_Namespace hc) = (pw, err)"
    by (cases "GetDefaultPasswords w (length tr) (Config_Namespace hc)")
  define gdp where "gdp = EvGetDefaultPasswords (Config_Namespace hc) pw err"
  define r where "r = Run w (Suc (length tr)) ConfigBatch"
  show ?thesis
  proof (cases r)
    case (Some e')
    then have "Start w hc createHub tr = (Some e', tr @ [gdp, EvRun ConfigBatch (Some e')])"
      using None g by (simp add: Start_def getHubConfigDeployer_def gdp_def r_def Let_def)
    then show ?thesis
      by (intro exI [of _ "[gdp, EvRun ConfigBatch (Some e')]"] conjI impI exI [of _ pw] exI [of _ err])
         (auto simp: gdp_def)
  next
    case rNone: None
    let ?tr2 = "tr @ [gdp, EvRun ConfigBatch None]"
    from Start_postgres_shape [of w hc createHub ?tr2] obtain pext
      where p: "snd (Start_postgres w hc createHub ?tr2) = ?tr2 @ pext"
        "\<forall>ev\<in>set pext. postgres_event ev"
        "init_attempted pext \<longleftrightarrow>
          ExternalPostgres createHub = None \<and> EvRun PostgresBatch None \<in> set pext
          \<and> database_gate createHub"
      by blast
    have pk: "\<forall>ev\<in>set pext. start_event ev \<and> (\<forall>x. ev \<noteq> EvRun ConfigBatch x)"
      using p(2) postgres_event_facts by blast
    obtain pr ptr where ps: "Start_postgres w hc createHub ?tr2 = (pr, ptr)"
      by (cases "Start_postgres w hc createHub ?tr2")
    with p(1) have ptr: "ptr = ?tr2 @ pext" by simp
    have "\<exists>hext. snd (Start w hc createHub tr) = ptr @ hext
        \<and> (\<forall>ev\<in>set hext. start_event ev \<and> \<not> is_db_wait ev \<and> (\<forall>x. ev \<noteq> EvRun ConfigBatch x)
               \<and> ev \<noteq> EvRun PostgresBatch None)"
      using None g rNone ps
      by (auto simp: Start_def getHubConfigDeployer_def getHubDeployer_def gdp_def r_def Let_def
            split: option.splits)
    then obtain hext where h: "snd (Start w hc createHub tr) = ptr @ hext"
      "\<forall>ev\<in>set hext. start_event ev \<and> \<not> is_db_wait ev \<and> (\<forall>x. ev \<noteq> EvRun ConfigBatch x)
               \<and> ev \<noteq> EvRun PostgresBatch None"
      by blast
    have hw: "\<not> init_attempted hext" using h(2) by (auto simp: init_attempted_iff)
    define ext where "ext = [gdp, EvRun ConfigBatch None] @ pext @ hext"
    have mem: "ev = gdp \<or> ev = EvRun ConfigBatch None \<or> ev \<in> set pext \<or> ev \<in> set hext"
      if "ev \<in> set ext" for ev
      using that by (auto simp: ext_def)
    have 0: "snd (Start w hc createHub tr) = tr @ ext"
      by (simp add: h(1) ptr ext_def)
    have 1: "\<forall>ev\<in>set ext. start_event ev"
    proof
      fix ev assume "ev \<in> set ext"
      from mem [OF this] show "start_event ev"
        using pk h(2) by (elim disjE) (simp_all add: gdp_def)
    qed
    have 2: "\<forall>e. EvRun ConfigBatch (Some e) \<in> set ext \<longrightarrow>
          fst (Start w hc createHub tr) = Some e \<and> last ext = EvRun ConfigBatch (Some e)"
    proof (intro allI impI)
      fix e assume "EvRun ConfigBatch (Some e) \<in> set ext"
      from mem [OF this] have False
        using pk h(2) by (elim disjE) (auto simp: gdp_def)
      then show "fst (Start w hc createHub tr) = Some e \<and> last ext = EvRun ConfigBatch (Some e)" ..
    qed
    have pg: "EvRun PostgresBatch None \<in> set ext \<longleftrightarrow> EvRun PostgresBatch None \<in> set pext"
    proof
      assume "EvRun PostgresBatch None \<in> set ext"
      from mem [OF this] show "EvRun PostgresBatch None \<in> set pext"
        using h(2) by (elim disjE) (auto simp: gdp_def)
    qed (simp add: ext_def)
    have 3: "init_attempted ext \<longleftrightarrow>
          ExternalPostgres createHub = None \<and> EvRun PostgresBatch None \<in> set ext
          \<and> database_gate createHub"
      unfolding pg using p(3) hw by (simp add: ext_def gdp_def)
    have 4: "NewDeployer w = None \<longrightarrow>
          (\<exists>pw r. EvGetDefaultPasswords (Config_Namespace hc) pw r \<in> set ext)"
      by (intro impI exI [of _ pw] exI [of _ err]) (simp add: ext_def gdp_def)
    from 0 1 2 3 4 show ?thesis
      by (intro exI [of _ ext] conjI)
  qed
qed

lemmas start_eval = Start_def Start_postgres_def getHubConfigDeployer_def getPostgresDeployer_def
  getHubDeployer_def initPostgres_def initPostgres_loop.simps EqualFold_def toLower_def
  ok_world_def hc0_def bd1_def bd_upper_def bd_running_def bd_external_def


section \<open>The claims\<close>

lemmas poll_eval = ok_world_def lb_world_def answer_def lb_pending_def np_pending_def

text \<open>
  C8. Each of the two address polls makes at most ten attempts, every one after a sleep of
  ten seconds. With \<open>n\<close> the first attempt whose answer is not a service without the
  address: the poll returns the address seen at attempt \<open>n\<close> and has made \<open>n + 1\<close>
  attempts; when ten attempts saw a service without the address it returns the timeout
  error; when attempt \<open>n\<close> is answered by an error it returns that error, wrapped, after
  \<open>n + 1\<close> attempts.
\<close>

theorem address_polls:
  "(\<exists>m\<le>10. snd (getLoadBalancerIPAddress w ns svc tr) = tr @ poll_events w ns svc (length tr) m)
   \<and> (n < 10 \<and> (\<forall>k<n. lb_pending (answer w ns svc tr k))
        \<and> answer w ns svc tr n = Inr s \<and> 0 < length (Ingress s)
      \<longrightarrow> getLoadBalancerIPAddress w ns svc tr =
            (Inr (IP (Ingress s ! 0)), tr @ poll_events w ns svc (length tr) (Suc n)))
   \<and> ((\<forall>k<10. lb_pending (answer w ns svc tr k))
      \<longrightarrow> getLoadBalancerIPAddress w ns svc tr =
            (Inl (ServiceTimeout svc ns), tr @ poll_events w ns svc (length tr) 10))
   \<and> (n < 10 \<and> (\<forall>k<n. lb_pending (answer w ns svc tr k)) \<and> answer w ns svc tr n = Inl e
      \<longrightarrow> getLoadBalancerIPAddress w ns svc tr =
            (Inl (ServiceLookupFailed svc ns e), tr @ poll_events w ns svc (length tr) (Suc n)))
   \<and> (\<exists>m\<le>10. snd (getNodePortIPAddress w ns svc tr) = tr @ poll_events w ns svc (length tr) m)
   \<and> (n < 10 \<and> (\<forall>k<n. np_pending (answer w ns svc tr k))
        \<and> answer w ns svc tr n = Inr s \<and> \<not> EqualFold (ClusterIP s) []
      \<longrightarrow> getNodePortIPAddress w ns svc tr =
            (Inr (ClusterIP s), tr @ poll_events w ns svc (length tr) (Suc n)))
   \<and> ((\<forall>k<10. np_pending (answer w ns svc tr k))
      \<longrightarrow> getNodePortIPAddress w ns svc tr =
            (Inl (ServiceTimeout svc ns), tr @ poll_events w ns svc (length tr) 10))
   \<and> (n < 10 \<and> (\<forall>k<n. np_pending (answer w ns svc tr k)) \<and> answer w ns svc tr n = Inl e
      \<longrightarrow> getNodePortIPAddress w ns svc tr =
            (Inl (ServiceLookupFailed svc ns e), tr @ poll_events w ns svc (length tr) (Suc n)))"
  using lb_bounded [of w ns svc tr] lb_found [of n w ns svc tr s] lb_timeout [of w ns svc tr]
    lb_error [of n w ns svc tr e] np_bounded [of w ns svc tr] np_found [of n w ns svc tr s]
    np_timeout [of w ns svc tr] np_error [of n w ns svc tr e]
  by blast


theorem address_polls_witness:
  "getLoadBalancerIPAddress lb_world ''ns1'' ''webserver-lb'' [] =
     (Inr ''35.0.0.1'',
      [EvSleep 10, EvGetService ''ns1'' ''webserver-lb'' (Inr \<lparr>Ingress = [], ClusterIP = []\<rparr>),
       EvSleep 10, EvGetService ''ns1'' ''webserver-lb'' (Inr \<lparr>Ingress = [], ClusterIP = []\<rparr>),
       EvSleep 10, EvGetService ''ns1'' ''webserver-lb''
         (Inr \<lparr>Ingress = [\<lparr>IP = ''35.0.0.1'', Hostname = []\<rparr>], ClusterIP = []\<rparr>)])
   \<and> getLoadBalancerIPAddress ok_world ''ns1'' ''webserver-np'' [] =
     (Inl (ServiceTimeout ''webserver-np'' ''ns1''), poll_events ok_world ''ns1'' ''webserver-np'' 0 10)
   \<and> getLoadBalancerIPAddress ok_world ''ns1'' ''webserver-lb'' [] =
     (Inl (ServiceLookupFailed ''webserver-lb'' ''ns1'' (Platform ''not found'')),
      [EvSleep 10, EvGetService ''ns1'' ''webserver-lb'' (Inl (Platform ''not found''))])
   \<and> getNodePortIPAddress ok_world ''ns1'' ''webserver-np'' [] =
     (Inr ''10.0.0.7'',
      [EvSleep 10, EvGetService ''ns1'' ''webserver-np'' (Inr \<lparr>Ingress = [], ClusterIP = ''10.0.0.7''\<rparr>)])
   \<and> getNodePortIPAddress lb_world ''ns1'' ''webserver-lb'' [] =
     (Inl (ServiceTimeout ''webserver-lb'' ''ns1''), poll_events lb_world ''ns1'' ''webserver-lb'' 0 10)
   \<and> getNodePortIPAddress lb_world ''ns1'' ''webserver-np'' [] =
     (Inl (ServiceLookupFailed ''webserver-np'' ''ns1'' (Platform ''not found'')),
      [EvSleep 10, EvGetService ''ns1'' ''webserver-np'' (Inl (Platform ''not found''))])"
proof -
  have 1: "getLoadBalancerIPAddress lb_world ''ns1'' ''webserver-lb'' [] =
     (Inr ''35.0.0.1'', poll_events lb_world ''ns1'' ''webserver-lb'' 0 (Suc 2))"
    using address_polls [where w = lb_world and ns = "''ns1''" and svc = "''webserver-lb''" and tr = "[]"
        and n = 2 and s = "\<lparr>Ingress = [\<lparr>IP = ''35.0.0.1'', Hostname = []\<rparr>], ClusterIP = []\<rparr>"]
    by (simp add: poll_eval)
  have 2: "getLoadBalancerIPAddress ok_world ''ns1'' ''webserver-np'' [] =
     (Inl (ServiceTimeout ''webserver-np'' ''ns1''), poll_events ok_world ''ns1'' ''webserver-np'' 0 10)"
    using address_polls [where w = ok_world and ns = "''ns1''" and svc = "''webserver-np''" and tr = "[]"]
    by (simp add: poll_eval)
  have 3: "getLoadBalancerIPAddress ok_world ''ns1'' ''webserver-lb'' [] =
     (Inl (ServiceLookupFailed ''webserver-lb'' ''ns1'' (Platform ''not found'')),
      poll_events ok_world ''ns1'' ''webserver-lb'' 0 (Suc 0))"
    using address_polls [where w = ok_world and ns = "''ns1''" and svc = "''webserver-lb''" and tr = "[]"
        and n = 0 and e = "Platform ''not found''"]
    by (simp add: poll_eval)
  have 4: "getNodePortIPAddress ok_world ''ns1'' ''webserver-np'' [] =
     (Inr ''10.0.0.7'', poll_events ok_world ''ns1'' ''webserver-np'' 0 (Suc 0))"
    using address_polls [where w = ok_world and ns = "''ns1''" and svc = "''webserver-np''" and tr = "[]"
        and n = 0 and s = "\<lparr>Ingress = [], ClusterIP = ''10.0.0.7''\<rparr>"]
    by (simp add: poll_eval)
  have 5: "getNodePortIPAddress lb_world ''ns1'' ''webserver-lb'' [] =
     (Inl (ServiceTimeout ''webserver-lb'' ''ns1''), poll_events lb_world ''ns1'' ''webserver-lb'' 0 10)"
    using address_polls [where w = lb_world and ns = "''ns1''" and svc = "''webserver-lb''" and tr = "[]"]
    by (simp add: poll_eval)
  have 6: "getNodePortIPAddress lb_world ''ns1'' ''webserver-np'' [] =
     (Inl (ServiceLookupFailed ''webserver-np'' ''ns1'' (Platform ''not found'')),
      poll_events lb_world ''ns1'' ''webserver-np'' 0 (Suc 0))"
    using address_polls [where w = lb_world and ns = "''ns1''" and svc = "''webserver-np''" and tr = "[]"
        and n = 0 and e = "Platform ''not found''"]
    by (simp add: poll_eval)
  show ?thesis
    unfolding 1 2 3 4 5 6 by (simp add: poll_eval numeral_2_eq_2)
qed

text \<open>
  C9, as stated, fails: the number of attempts has an enforced bound. On a cluster whose
  operator secret can never be read, the loop ends after exactly 2147483647
  (\<^verbatim>\<open>math.MaxInt32\<close>) fetches, and \<^verbatim>\<open>initPostgres\<close> goes on: it waits for the postgres
  endpoint, initializes the database with the empty strings of the last answer, and
  returns nil.
\<close>

theorem initPostgres_credentials_counterexample:
  "initPostgres locked_world hc0 bd1 [] =
     (None,
      retry_events locked_world ''operator'' 0 2147483647
        @ [EvWaitForServiceEndpointReady ''ns1'' ''postgres'' None, EvInitDatabase ([], [], []) None])
   \<and> length (filter is_fetch (retry_events locked_world ''operator'' 0 2147483647)) = 2147483647"
proof -
  have "\<forall>k<2147483647. snd (fetch_answer locked_world hc0 [] k) \<noteq> None"
    by (simp add: fetch_answer_def locked_world_def ok_world_def)
  from initPostgres_loop_exhausted [OF this, of "([], [], [])"]
  have "initPostgres_loop locked_world hc0 0 ([], [], []) [] =
      (([], [], []), retry_events locked_world ''operator'' 0 2147483647)"
    by (simp add: fetch_answer_def locked_world_def ok_world_def hc0_def)
  then show ?thesis
    by (simp add: initPostgres_def locked_world_def ok_world_def hc0_def bd1_def)
qed

text \<open>
  C9, amended. The credential loop of \<^verbatim>\<open>initPostgres\<close> makes at most 2147483647 fetches and
  adds nothing but fetches, its log line and sleeps of 5 seconds. With \<open>n\<close> the first
  attempt that succeeds, it returns the passwords of that attempt after \<open>n\<close> failed
  attempts, each followed by the log line and a sleep of 5 seconds. When all 2147483647
  attempts fail it returns all the same, with the strings of the last answer: no error
  leaves the loop. \<^verbatim>\<open>initPostgres\<close> waits for the postgres endpoint right after the loop
  has ended, and not before.
\<close>

theorem initPostgres_credentials_bounded:
  "length (filter is_fetch (drop (length tr) (snd (initPostgres_loop w hc 0 pw tr)))) \<le> 2147483647
   \<and> (\<forall>ev\<in>set (drop (length tr) (snd (initPostgres_loop w hc 0 pw tr))).
         is_fetch ev \<or> ev = EvLogInfo ''unable to init database, sleeping 5 seconds'' \<or> ev = EvSleep 5)
   \<and> (n < 2147483647 \<and> (\<forall>k<n. snd (fetch_answer w hc tr k) \<noteq> None)
        \<and> fetch_answer w hc tr n = (pw', None)
      \<longrightarrow> initPostgres_loop w hc 0 pw tr =
            (pw', tr @ retry_events w (Config_Namespace hc) (length tr) n
                     @ [EvGetDefaultPasswords (Config_Namespace hc) pw' None]))
   \<and> ((\<forall>k<2147483647. snd (fetch_answer w hc tr k) \<noteq> None)
      \<longrightarrow> initPostgres_loop w hc 0 pw tr =
            (fst (fetch_answer w hc tr 2147483646),
             tr @ retry_events w (Config_Namespace hc) (length tr) 2147483647))
   \<and> (\<exists>rest. snd (initPostgres w hc createHub tr) =
          snd (initPostgres_loop w hc 0 ([], [], []) tr)
            @ EvWaitForServiceEndpointReady (Namespace createHub) ''postgres''
                (WaitForServiceEndpointReady w (length (snd (initPostgres_loop w hc 0 ([], [], []) tr)))
                   (Namespace createHub) ''postgres'')
            # rest)"
proof -
  from initPostgres_loop_ext [of w hc pw tr] obtain ext
    where ext: "snd (initPostgres_loop w hc 0 pw tr) = tr @ ext"
      "length (filter is_fetch ext) \<le> 2147483647"
      "\<forall>ev\<in>set ext. is_fetch ev \<or> ev = EvLogInfo ''unable to init database, sleeping 5 seconds''
                          \<or> ev = EvSleep 5"
    by blast
  have 1: "length (filter is_fetch (drop (length tr) (snd (initPostgres_loop w hc 0 pw tr)))) \<le> 2147483647"
    using ext by simp
  have 2: "\<forall>ev\<in>set (drop (length tr) (snd (initPostgres_loop w hc 0 pw tr))).
         is_fetch ev \<or> ev = EvLogInfo ''unable to init database, sleeping 5 seconds'' \<or> ev = EvSleep 5"
    using ext by simp
  have 5: "\<exists>rest. snd (initPostgres w hc createHub tr) =
          snd (initPostgres_loop w hc 0 ([], [], []) tr)
            @ EvWaitForServiceEndpointReady (Namespace createHub) ''postgres''
                (WaitForServiceEndpointReady w (length (snd (initPostgres_loop w hc 0 ([], [], []) tr)))
                   (Namespace createHub) ''postgres'')
            # rest"
    by (cases "initPostgres_loop w hc 0 ([], [], []) tr")
       (auto simp: initPostgres_def Let_def split: option.splits sum.splits)
  from 1 2 5 initPostgres_loop_found [of n w hc tr pw' pw] initPostgres_loop_exhausted [of w hc tr pw]
  show ?thesis by blast
qed

theorem initPostgres_credentials_bounded_witness:
  "initPostgres_loop slow_world hc0 0 ([], [], []) [] =
     ((''admin'', ''user'', ''postgres''),
      [EvGetDefaultPasswords ''operator'' ([], [], []) (Some (Platform ''not found'')),
       EvLogInfo ''unable to init database, sleeping 5 seconds'', EvSleep 5,
       EvGetDefaultPasswords ''operator'' ([], [], []) (Some (Platform ''not found'')),
       EvLogInfo ''unable to init database, sleeping 5 seconds'', EvSleep 5,
       EvGetDefaultPasswords ''operator'' (''admin'', ''user'', ''postgres'') None])
   \<and> initPostgres_loop locked_world hc0 0 ([], [], []) [] =
     (([], [], []), retry_events locked_world ''operator'' 0 2147483647)"
  using initPostgres_credentials_bounded [where w = slow_world and hc = hc0 and pw = "([], [], [])"
      and tr = "[]" and n = 2 and pw' = "(''admin'', ''user'', ''postgres'')" and createHub = bd1]
    initPostgres_credentials_bounded [where w = locked_world and hc = hc0 and pw = "([], [], [])"
      and tr = "[]" and n = 0 and pw' = "([], [], [])" and createHub = bd1]
  by (simp add: fetch_answer_def slow_world_def locked_world_def ok_world_def hc0_def numeral_2_eq_2)

text \<open>
  C4, as stated, fails: with persistent storage enabled and the state tag \<^verbatim>\<open>"PENDING"\<close>,
  which is not \<^verbatim>\<open>"pending"\<close>, \<^verbatim>\<open>Start\<close> runs the database initialization. Line 226 compares
  with \<^verbatim>\<open>strings.EqualFold\<close>.
\<close>

theorem Start_database_gate_counterexample:
  "ExternalPostgres bd_upper = None \<and> PersistentStorage bd_upper \<and> State bd_upper \<noteq> ''pending''
   \<and> init_attempted (snd (Start ok_world hc0 bd_upper []))"
proof -
  have "Start ok_world hc0 bd_upper [] =
      (None, [EvGetDefaultPasswords ''operator'' (''admin'', ''user'', ''postgres'') None,
        EvRun ConfigBatch None, EvRun PostgresBatch None,
        EvGetDefaultPasswords ''operator'' (''admin'', ''user'', ''postgres'') None,
        EvWaitForServiceEndpointReady ''ns1'' ''postgres'' None,
        EvInitDatabase (''admin'', ''user'', ''postgres'') None,
        EvAddAnyUID None, EvRun HubBatch None])"
    by (simp add: start_eval)
  then show ?thesis by (simp add: bd_upper_def bd1_def)
qed

text \<open>
  C4, amended. For an instance with no external database reference, \<^verbatim>\<open>Start\<close> runs the
  database initialization if and only if it has applied the database batch and
  persistent storage is disabled, or persistent storage is enabled and the state tag
  equals \<^verbatim>\<open>"pending"\<close> up to the case of its letters. With an external database reference
  it never runs it.
\<close>

theorem Start_database_gate:
  "\<exists>ext. snd (Start w hc createHub tr) = tr @ ext
     \<and> (ExternalPostgres createHub = None \<longrightarrow>
          (init_attempted ext \<longleftrightarrow>
             EvRun PostgresBatch None \<in> set ext
             \<and> (\<not> PersistentStorage createHub
                 \<or> (PersistentStorage createHub \<and> EqualFold (State createHub) ''pending''))))
     \<and> (ExternalPostgres createHub \<noteq> None \<longrightarrow> \<not> init_attempted ext)"
  using Start_shape [of w hc createHub tr] unfolding database_gate_def by blast

theorem Start_database_gate_witness:
  "init_attempted (snd (Start ok_world hc0 bd1 []))
   \<and> init_attempted (snd (Start ok_world hc0 bd_upper []))
   \<and> \<not> init_attempted (snd (Start ok_world hc0 bd_running []))
   \<and> \<not> init_attempted (snd (Start ok_world hc0 bd_external []))
   \<and> snd (Start ok_world hc0 bd_running []) =
       [EvGetDefaultPasswords ''operator'' (''admin'', ''user'', ''postgres'') None,
        EvRun ConfigBatch None, EvRun PostgresBatch None, EvAddAnyUID None, EvRun HubBatch None]"
proof -
  have 1: "Start ok_world hc0 bd1 [] =
      (None, [EvGetDefaultPasswords ''operator'' (''admin'', ''user'', ''postgres'') None,
        EvRun ConfigBatch None, EvRun PostgresBatch None,
        EvGetDefaultPasswords ''operator'' (''admin'', ''user'', ''postgres'') None,
        EvWaitForServiceEndpointReady ''ns1'' ''postgres'' None,
        EvInitDatabase (''admin'', ''user'', ''postgres'') None,
        EvAddAnyUID None, EvRun HubBatch None])"
    by (simp add: start_eval)
  have 2: "Start ok_world hc0 bd_upper [] =
      (None, [EvGetDefaultPasswords ''operator'' (''admin'', ''user'', ''postgres'') None,
        EvRun ConfigBatch None, EvRun PostgresBatch None,
        EvGetDefaultPasswords ''operator'' (''admin'', ''user'', ''postgres'') None,
        EvWaitForServiceEndpointReady ''ns1'' ''postgres'' None,
        EvInitDatabase (''admin'', ''user'', ''postgres'') None,
        EvAddAnyUID None, EvRun HubBatch None])"
    by (simp add: start_eval)
  have 3: "Start ok_world hc0 bd_running [] =
      (None, [EvGetDefaultPasswords ''operator'' (''admin'', ''user'', ''postgres'') None,
        EvRun ConfigBatch None, EvRun PostgresBatch None, EvAddAnyUID None, EvRun HubBatch None])"
    by (simp add: start_eval)
  have 4: "Start ok_world hc0 bd_external [] =
      (None, [EvGetDefaultPasswords ''operator'' (''admin'', ''user'', ''postgres'') None,
        EvRun ConfigBatch None, EvAddAnyUID None, EvRun HubBatch None])"
    by (simp add: start_eval)
  from Start_database_gate [of ok_world hc0 bd1 "[]"] Start_database_gate [of ok_world hc0 bd_upper "[]"]
    Start_database_gate [of ok_world hc0 bd_running "[]"] Start_database_gate [of ok_world hc0 bd_external "[]"]
  show ?thesis unfolding 1 2 3 4 by simp
qed




text \<open>
  C5. \<^verbatim>\<open>DeleteHub\<close> never returns an error, on a cluster whose namespace lookups always
  hand back a namespace object (the typed client does, also together with an error).
  Every run that ends returns nil, and its trace ends with the persistent volume delete
  and the cluster role binding delete, attempted once each and after everything else. A
  refused namespace delete is logged and the wait loop still runs; a refused persistent
  volume delete is logged and the role binding delete still follows; a refused role
  binding delete is logged and nil is returned. When the first lookup fails (the
  namespace is absent), the run returns nil for every \<open>fuel\<close>, after the log line and both
  deletes. The only run that does not end within \<open>fuel\<close> lookups is the one that found the
  namespace and whose lookups in the wait loop have all succeeded so far: the wait has no
  failure of its own.
\<close>

theorem DeleteHub_best_effort:
  assumes obj: "\<forall>t. fst (GetNamespace w t ns) \<noteq> None"
  shows
  "(DeleteHub w ns fuel tr = Some (out, tr') \<longrightarrow>
      out = Returned None
      \<and> (\<exists>ext. tr' = tr @ ext
           \<and> (\<exists>r. EvDeletePersistentVolume ns r \<in> set ext)
           \<and> (\<exists>r. EvDeleteClusterRoleBinding ns r \<in> set ext)
           \<and> (EvDeleteNamespace ns (Some e) \<in> set ext \<longrightarrow>
                EvLogError ''unable to delete the namespace'' \<in> set ext
                \<and> 2 \<le> length (filter is_lookup ext))
           \<and> (EvDeletePersistentVolume ns (Some e) \<in> set ext \<longrightarrow>
                EvLogError ''unable to delete the pv'' \<in> set ext)
           \<and> (EvDeleteClusterRoleBinding ns (Some e) \<in> set ext \<longrightarrow>
                EvLogError ''unable to delete the cluster role binding'' \<in> set ext)
           \<and> (\<exists>pre. ext = pre @ cleanup_events w ns (length tr + length pre)
                 \<and> (\<forall>r. EvDeletePersistentVolume ns r \<notin> set pre
                        \<and> EvDeleteClusterRoleBinding ns r \<notin> set pre))))
   \<and> (snd (GetNamespace w (Suc (length tr)) ns) = Some e \<longrightarrow>
        DeleteHub w ns fuel tr =
          Some (Returned None,
                tr @ [EvLogInfo ''Deleting hub'',
                      EvGetNamespace ns (fst (GetNamespace w (Suc (length tr)) ns)) (Some e),
                      EvLogError ''unable to find the namespace'']
                   @ cleanup_events w ns (length tr + 3)))
   \<and> (DeleteHub w ns fuel tr = None \<longleftrightarrow>
        snd (GetNamespace w (Suc (length tr)) ns) = None
        \<and> (\<forall>k<fuel. snd (GetNamespace w (loop_start w ns tr + 3 * k) ns) = None))"
proof (intro conjI impI)
  show "DeleteHub w ns fuel tr = None \<longleftrightarrow>
        snd (GetNamespace w (Suc (length tr)) ns) = None
        \<and> (\<forall>k<fuel. snd (GetNamespace w (loop_start w ns tr + 3 * k) ns) = None)"
    by (rule DeleteHub_None_iff [OF obj])
next
  assume "snd (GetNamespace w (Suc (length tr)) ns) = Some e"
  then show "DeleteHub w ns fuel tr =
          Some (Returned None,
                tr @ [EvLogInfo ''Deleting hub'',
                      EvGetNamespace ns (fst (GetNamespace w (Suc (length tr)) ns)) (Some e),
                      EvLogError ''unable to find the namespace'']
                   @ cleanup_events w ns (length tr + 3))"
    by (cases "GetNamespace w (Suc (length tr)) ns")
       (simp add: DeleteHub_eq DeleteHub_namespace_def Let_def numeral_3_eq_3)
next
  assume a: "DeleteHub w ns fuel tr = Some (out, tr')"
  from DeleteHub_returned_shape [OF obj a] obtain pre where o: "out = Returned None"
    and t: "tr' = tr @ pre @ cleanup_events w ns (length tr + length pre)"
    and pn: "\<forall>r. EvDeletePersistentVolume ns r \<notin> set pre \<and> EvDeleteClusterRoleBinding ns r \<notin> set pre"
    and pd: "\<forall>e. EvDeleteNamespace ns (Some e) \<in> set pre \<longrightarrow>
                EvLogError ''unable to delete the namespace'' \<in> set pre
                \<and> 2 \<le> length (filter is_lookup pre)"
    by blast
  from o show "out = Returned None" .
  let ?c = "cleanup_events w ns (length tr + length pre)"
  have 1: "\<exists>r. EvDeletePersistentVolume ns r \<in> set (pre @ ?c)"
    using cleanup_events_attempts(1) [of ns w "length tr + length pre"] by auto
  have 2: "\<exists>r. EvDeleteClusterRoleBinding ns r \<in> set (pre @ ?c)"
    using cleanup_events_attempts(2) [of ns w "length tr + length pre"] by auto
  have 3: "EvDeleteNamespace ns (Some e) \<in> set (pre @ ?c) \<longrightarrow>
                EvLogError ''unable to delete the namespace'' \<in> set (pre @ ?c)
                \<and> 2 \<le> length (filter is_lookup (pre @ ?c))"
    using pd [rule_format, of e] cleanup_events_others [of ns "Some e" w "length tr + length pre"]
    by auto
  have 4: "EvDeletePersistentVolume ns (Some e) \<in> set (pre @ ?c) \<longrightarrow>
                EvLogError ''unable to delete the pv'' \<in> set (pre @ ?c)"
    using pn cleanup_events_logged(1) [of ns e w "length tr + length pre"] by auto
  have 5: "EvDeleteClusterRoleBinding ns (Some e) \<in> set (pre @ ?c) \<longrightarrow>
                EvLogError ''unable to delete the cluster role binding'' \<in> set (pre @ ?c)"
    using pn cleanup_events_logged(2) [of ns e w "length tr + length pre"] by auto
  have 6: "\<exists>p. pre @ ?c = p @ cleanup_events w ns (length tr + length p)
                 \<and> (\<forall>r. EvDeletePersistentVolume ns r \<notin> set p
                        \<and> EvDeleteClusterRoleBinding ns r \<notin> set p)"
    using pn by (intro exI [of _ pre]) simp
  from t 1 2 3 4 5 6
  show "\<exists>ext. tr' = tr @ ext
           \<and> (\<exists>r. EvDeletePersistentVolume ns r \<in> set ext)
           \<and> (\<exists>r. EvDeleteClusterRoleBinding ns r \<in> set ext)
           \<and> (EvDeleteNamespace ns (Some e) \<in> set ext \<longrightarrow>
                EvLogError ''unable to delete the namespace'' \<in> set ext
                \<and> 2 \<le> length (filter is_lookup ext))
           \<and> (EvDeletePersistentVolume ns (Some e) \<in> set ext \<longrightarrow>
                EvLogError ''unable to delete the pv'' \<in> set ext)
           \<and> (EvDeleteClusterRoleBinding ns (Some e) \<in> set ext \<longrightarrow>
                EvLogError ''unable to delete the cluster role binding'' \<in> set ext)
           \<and> (\<exists>pre. ext = pre @ cleanup_events w ns (length tr + length pre)
                 \<and> (\<forall>r. EvDeletePersistentVolume ns r \<notin> set pre
                        \<and> EvDeleteClusterRoleBinding ns r \<notin> set pre))"
    apply -
    apply (rule exI [of _ "pre @ ?c"])
    apply (intro conjI)
          apply assumption+
    done
qed

lemmas delete_eval = ok_world_def gone_world_def stubborn_world_def terminating_world_def
  cleanup_events_def loop_start_def DeleteHub_def DeleteHub_namespace_def Let_def

theorem DeleteHub_best_effort_witness:
  "DeleteHub gone_world ''ns1'' 0 [] =
     Some (Returned None,
           [EvLogInfo ''Deleting hub'', EvGetNamespace ''ns1'' (Some []) (Some (Platform ''not found'')),
            EvLogError ''unable to find the namespace'',
            EvDeletePersistentVolume ''ns1'' None, EvDeleteClusterRoleBinding ''ns1'' None])
   \<and> DeleteHub stubborn_world ''ns1'' 1 [] =
     Some (Returned None,
           [EvLogInfo ''Deleting hub'', EvGetNamespace ''ns1'' (Some ''Active'') None,
            EvDeleteNamespace ''ns1'' (Some (Platform ''forbidden'')),
            EvLogError ''unable to delete the namespace'',
            EvGetNamespace ''ns1'' (Some []) (Some (Platform ''not found'')),
            EvLogInfo ''namespace status: '', EvSleep 10, EvLogInfo ''deleted the namespace'',
            EvDeletePersistentVolume ''ns1'' (Some (Platform ''forbidden'')),
            EvLogError ''unable to delete the pv'',
            EvDeleteClusterRoleBinding ''ns1'' (Some (Platform ''forbidden'')),
            EvLogError ''unable to delete the cluster role binding''])
   \<and> DeleteHub terminating_world ''ns1'' 2 [] = None
   \<and> (\<exists>tr'. DeleteHub terminating_world ''ns1'' 3 [] = Some (Returned None, tr'))"
proof -
  have g: "\<forall>t. fst (GetNamespace gone_world t ''ns1'') \<noteq> None"
    by (simp add: gone_world_def ok_world_def)
  have s: "\<forall>t. fst (GetNamespace stubborn_world t ''ns1'') \<noteq> None"
    by (simp add: stubborn_world_def ok_world_def)
  have t: "\<forall>t. fst (GetNamespace terminating_world t ''ns1'') \<noteq> None"
    by (simp add: terminating_world_def ok_world_def)
  have 1: "DeleteHub gone_world ''ns1'' 0 [] =
     Some (Returned None,
           [EvLogInfo ''Deleting hub'', EvGetNamespace ''ns1'' (Some []) (Some (Platform ''not found'')),
            EvLogError ''unable to find the namespace''] @ cleanup_events gone_world ''ns1'' 3)"
    using DeleteHub_best_effort [OF g, where fuel = 0 and tr = "[]"
        and e = "Platform ''not found''" and out = Panicked and tr' = "[]"]
    by (simp add: gone_world_def ok_world_def)
  have 2: "DeleteHub stubborn_world ''ns1'' 1 [] \<noteq> None"
    using DeleteHub_best_effort [OF s, where fuel = 1 and tr = "[]"
        and e = "Platform ''forbidden''" and out = Panicked and tr' = "[]"]
    by (simp add: stubborn_world_def ok_world_def loop_start_def)
  then obtain out tr' where 3: "DeleteHub stubborn_world ''ns1'' 1 [] = Some (out, tr')" by auto
  from DeleteHub_best_effort [OF s, where fuel = 1 and tr = "[]"
        and e = "Platform ''forbidden''" and out = out and tr' = tr'] 3
  have 4: "out = Returned None" by simp
  have 5: "tr' = [EvLogInfo ''Deleting hub'', EvGetNamespace ''ns1'' (Some ''Active'') None,
            EvDeleteNamespace ''ns1'' (Some (Platform ''forbidden'')),
            EvLogError ''unable to delete the namespace'',
            EvGetNamespace ''ns1'' (Some []) (Some (Platform ''not found'')),
            EvLogInfo ''namespace status: '', EvSleep 10, EvLogInfo ''deleted the namespace'',
            EvDeletePersistentVolume ''ns1'' (Some (Platform ''forbidden'')),
            EvLogError ''unable to delete the pv'',
            EvDeleteClusterRoleBinding ''ns1'' (Some (Platform ''forbidden'')),
            EvLogError ''unable to delete the cluster role binding'']"
    using 3 by (simp add: delete_eval)
  have 6: "DeleteHub terminating_world ''ns1'' 2 [] = None"
    using DeleteHub_best_effort [OF t, where fuel = 2 and tr = "[]"
        and e = "Platform ''forbidden''" and out = Panicked and tr' = "[]"]
    by (simp add: terminating_world_def ok_world_def loop_start_def less_Suc_eq numeral_2_eq_2)
  have 7: "DeleteHub terminating_world ''ns1'' 3 [] \<noteq> None"
    using DeleteHub_best_effort [OF t, where fuel = 3 and tr = "[]"
        and e = "Platform ''forbidden''" and out = Panicked and tr' = "[]"]
    by (auto simp add: terminating_world_def ok_world_def loop_start_def intro: exI [of _ 2])
  then obtain out' tr'' where 8: "DeleteHub terminating_world ''ns1'' 3 [] = Some (out', tr'')" by auto
  from DeleteHub_best_effort [OF t, where fuel = 3 and tr = "[]"
        and e = "Platform ''forbidden''" and out = out' and tr' = tr''] 8
  have 9: "out' = Returned None" by simp
  from 1 3 4 5 6 8 9 show ?thesis by (simp add: delete_eval)
qed

text \<open>
  C10, as stated, fails: a lookup that fails does not reach the read of \<^verbatim>\<open>ns.Status\<close> with
  no value present. On \<open>stubborn_world\<close> the lookup at time 4, the first of the wait loop,
  fails with ``not found'' and hands back an empty namespace object with the error; the
  iteration reads and logs the (empty) status of that object, sleeps, and ends the loop.
\<close>

theorem DeleteHub_loop_unguarded_read_counterexample:
  "GetNamespace stubborn_world 4 ''ns1'' = (Some [], Some (Platform ''not found''))
   \<and> DeleteHub_loop stubborn_world ''ns1'' 1
       [EvLogInfo ''Deleting hub'', EvGetNamespace ''ns1'' (Some ''Active'') None,
        EvDeleteNamespace ''ns1'' (Some (Platform ''forbidden'')),
        EvLogError ''unable to delete the namespace''] =
     Some (Returned (),
           [EvLogInfo ''Deleting hub'', EvGetNamespace ''ns1'' (Some ''Active'') None,
            EvDeleteNamespace ''ns1'' (Some (Platform ''forbidden'')),
            EvLogError ''unable to delete the namespace'',
            EvGetNamespace ''ns1'' (Some []) (Some (Platform ''not found'')),
            EvLogInfo ''namespace status: '', EvSleep 10, EvLogInfo ''deleted the namespace''])"
  by (simp add: stubborn_world_def ok_world_def)

text \<open>
  C10, amended. An iteration of the wait loop of \<^verbatim>\<open>DeleteHub\<close> reads and logs \<^verbatim>\<open>ns.Status\<close>
  and sleeps 10 seconds before it looks at the error of the lookup, also on the iteration
  whose lookup fails. With lookup \<open>n\<close> the first to fail, handing back an object with its
  error, the loop returns after \<open>n\<close> full iterations, the failing lookup, the status line
  of the object handed back with the error, one more sleep, and the closing log line;
  every run of the loop that returns ends that way. While the lookups succeed the loop
  goes on. The read is guarded by nothing: the loop panics exactly when a lookup hands
  back no object, right after that lookup and whatever its error.
\<close>

theorem DeleteHub_loop_reads_before_check:
  "(n < fuel \<and> (\<forall>k<n. \<exists>s. wait_answer w ns tr k = (Some s, None))
      \<and> wait_answer w ns tr n = (Some status, Some e) \<longrightarrow>
      DeleteHub_loop w ns fuel tr =
        Some (Returned (),
              tr @ wait_events w ns (length tr) n
                 @ [EvGetNamespace ns (Some status) (Some e),
                    EvLogInfo (''namespace status: '' @ status), EvSleep 10,
                    EvLogInfo ''deleted the namespace'']))
   \<and> ((\<forall>k<fuel. \<exists>s. wait_answer w ns tr k = (Some s, None)) \<longrightarrow>
        DeleteHub_loop w ns fuel tr = None)
   \<and> (DeleteHub_loop w ns fuel tr = Some (Returned u, tr') \<longrightarrow>
        (\<exists>s e. suffix [EvGetNamespace ns (Some s) (Some e), EvLogInfo (''namespace status: '' @ s),
                        EvSleep 10, EvLogInfo ''deleted the namespace''] tr'))
   \<and> (DeleteHub_loop w ns fuel tr = Some (Panicked, tr') \<longleftrightarrow>
        (\<exists>m<fuel. (\<forall>k<m. \<exists>s. wait_answer w ns tr k = (Some s, None))
           \<and> fst (wait_answer w ns tr m) = None
           \<and> tr' = tr @ wait_events w ns (length tr) m
                       @ [EvGetNamespace ns None (snd (wait_answer w ns tr m))]))"
proof (intro conjI impI)
  assume "n < fuel \<and> (\<forall>k<n. \<exists>s. wait_answer w ns tr k = (Some s, None))
      \<and> wait_answer w ns tr n = (Some status, Some e)"
  then show "DeleteHub_loop w ns fuel tr =
        Some (Returned (),
              tr @ wait_events w ns (length tr) n
                 @ [EvGetNamespace ns (Some status) (Some e),
                    EvLogInfo (''namespace status: '' @ status), EvSleep 10,
                    EvLogInfo ''deleted the namespace''])"
    using DeleteHub_loop_returned [of n fuel w ns tr status e] by blast
next
  assume "\<forall>k<fuel. \<exists>s. wait_answer w ns tr k = (Some s, None)"
  then show "DeleteHub_loop w ns fuel tr = None" by (rule DeleteHub_loop_waiting)
next
  assume "DeleteHub_loop w ns fuel tr = Some (Returned u, tr')"
  then show "\<exists>s e. suffix [EvGetNamespace ns (Some s) (Some e), EvLogInfo (''namespace status: '' @ s),
                        EvSleep 10, EvLogInfo ''deleted the namespace''] tr'"
    by (rule DeleteHub_loop_returns_suffix)
next
  show "DeleteHub_loop w ns fuel tr = Some (Panicked, tr') \<longleftrightarrow>
        (\<exists>m<fuel. (\<forall>k<m. \<exists>s. wait_answer w ns tr k = (Some s, None))
           \<and> fst (wait_answer w ns tr m) = None
           \<and> tr' = tr @ wait_events w ns (length tr) m
                       @ [EvGetNamespace ns None (snd (wait_answer w ns tr m))])"
    by (rule DeleteHub_loop_Panicked_iff)
qed

theorem DeleteHub_loop_reads_before_check_witness:
  "DeleteHub_loop terminating_world ''ns1'' 4 [] =
     Some (Returned (),
           [EvGetNamespace ''ns1'' (Some ''Terminating'') None,
            EvLogInfo ''namespace status: Terminating'', EvSleep 10,
            EvGetNamespace ''ns1'' (Some ''Terminating'') None,
            EvLogInfo ''namespace status: Terminating'', EvSleep 10,
            EvGetNamespace ''ns1'' (Some ''Terminating'') None,
            EvLogInfo ''namespace status: Terminating'', EvSleep 10,
            EvGetNamespace ''ns1'' (Some []) (Some (Platform ''not found'')),
            EvLogInfo ''namespace status: '', EvSleep 10, EvLogInfo ''deleted the namespace''])
   \<and> DeleteHub_loop terminating_world ''ns1'' 3 [] = None
   \<and> DeleteHub_loop terminating_world ''ns1'' 4 [] \<noteq>
       Some (Panicked,
             [EvGetNamespace ''ns1'' (Some ''Terminating'') None,
              EvLogInfo ''namespace status: Terminating'', EvSleep 10,
              EvGetNamespace ''ns1'' None (Some (Platform ''not found''))])"
proof -
  have a: "\<forall>k<3. \<exists>s. wait_answer terminating_world ''ns1'' [] k = (Some s, None)"
    by (simp add: wait_answer_def terminating_world_def ok_world_def)
  have b: "wait_answer terminating_world ''ns1'' [] 3 = (Some [], Some (Platform ''not found''))"
    by (simp add: wait_answer_def terminating_world_def ok_world_def)
  have c: "wait_events terminating_world ''ns1'' 0 3 =
      [EvGetNamespace ''ns1'' (Some ''Terminating'') None,
       EvLogInfo ''namespace status: Terminating'', EvSleep 10,
       EvGetNamespace ''ns1'' (Some ''Terminating'') None,
       EvLogInfo ''namespace status: Terminating'', EvSleep 10,
       EvGetNamespace ''ns1'' (Some ''Terminating'') None,
       EvLogInfo ''namespace status: Terminating'', EvSleep 10]"
    by (simp add: numeral_3_eq_3 terminating_world_def ok_world_def)
  have 1: "DeleteHub_loop terminating_world ''ns1'' 4 [] =
     Some (Returned (),
           wait_events terminating_world ''ns1'' 0 3
             @ [EvGetNamespace ''ns1'' (Some []) (Some (Platform ''not found'')),
                EvLogInfo ''namespace status: '', EvSleep 10, EvLogInfo ''deleted the namespace''])"
    using DeleteHub_loop_reads_before_check [where w = terminating_world and ns = "''ns1''"
        and fuel = 4 and tr = "[]" and n = 3 and status = "[]" and e = "Platform ''not found''"
        and u = "()" and tr' = "[]"] a b
    by simp
  have 2: "DeleteHub_loop terminating_world ''ns1'' 3 [] = None"
    using DeleteHub_loop_reads_before_check [where w = terminating_world and ns = "''ns1''"
        and fuel = 3 and tr = "[]" and n = 0 and status = "[]" and e = "Platform ''not found''"
        and u = "()" and tr' = "[]"] a
    by simp
  from 1 2 show ?thesis unfolding c by simp
qed

end
